theory Spec2Isabelle
  imports Main "HOL-Library.AList"
begin

section \<open>Command-line processing of trafilatura (cli_utils.py)\<close>

text \<open>
  A shallow embedding of \<^verbatim>\<open>src/trafilatura/cli_utils.py\<close>. Python strings are
  \<open>string\<close> (in the blacklist loader, lists of code points), Python integers are \<open>int\<close>, \<^verbatim>\<open>None\<close> is \<open>None\<close>, and an
  exception that leaves a function is a value \<open>Inl e\<close> of the result type
  \<open>error + 'a\<close>. The constants of the settings module (not part of the sources) are
  parameters: an argument of \<open>determine_counter_dir\<close>, and fields of the environment
  record for the functions defined after it.
\<close>

text \<open>
  The exceptions the modelled code can raise. \<open>Hangs\<close> stands for a call that does not
  return (the loop of \<^verbatim>\<open>get_writable_path\<close> when every generated name is taken).
\<close>

datatype error =
  IndexError | KeyError | ZeroDivisionError | OverflowError | TypeError | ValueError | Hangs

subsection \<open>Strings\<close>

definition startswith :: "'a list \<Rightarrow> 'a list \<Rightarrow> bool" where
  "startswith s p = (take (length p) s = p)"

definition endswith :: "'a list \<Rightarrow> 'a list \<Rightarrow> bool" where
  "endswith s p = (length p \<le> length s \<and> drop (length s - length p) s = p)"

text \<open>
  \<^verbatim>\<open>re.sub('^' + old, new, s)\<close> for a literal \<open>old\<close>: the pattern is anchored at the
  start of the string, so at most the leading occurrence is replaced.
\<close>

definition re_sub_prefix :: "'a list \<Rightarrow> 'a list \<Rightarrow> 'a list \<Rightarrow> 'a list" where
  "re_sub_prefix old new s = (if startswith s old then new @ drop (length old) s else s)"

text \<open>
  The lines of the blacklist file are decoded text, and what \<^verbatim>\<open>str.strip\<close> removes
  depends on the code points: there a \<^verbatim>\<open>str\<close> is the list of its code points (natural
  numbers), and \<open>codepoints\<close> gives the code points of a literal. \<open>isspace\<close> is
  \<^verbatim>\<open>str.isspace\<close> on one code point: the characters of the Unicode database with
  general category \<open>Zs\<close> or bidirectional class \<open>WS\<close>, \<open>B\<close> or \<open>S\<close>.
\<close>

definition codepoints :: "string \<Rightarrow> nat list" where
  "codepoints s = map of_char s"

definition isspace :: "nat \<Rightarrow> bool" where
  "isspace c =
     (c \<in> {9, 10, 11, 12, 13, 28, 29, 30, 31, 32, 133, 160, 5760,
            8192, 8193, 8194, 8195, 8196, 8197, 8198, 8199, 8200, 8201, 8202,
            8232, 8233, 8239, 8287, 12288})"

definition strip :: "nat list \<Rightarrow> nat list" where
  "strip s = rev (dropWhile isspace (rev (dropWhile isspace s)))"

text \<open>\<^verbatim>\<open>str(n)\<close> for an integer: its decimal digits, with a minus sign below zero.\<close>

fun str_nat :: "nat \<Rightarrow> string" where
  "str_nat n =
     (if n < 10 then [''0123456789'' ! n]
      else str_nat (n div 10) @ [''0123456789'' ! (n mod 10)])"

declare str_nat.simps [simp del]

definition str_int :: "int \<Rightarrow> string" where
  "str_int n = (if n < 0 then ''-'' @ str_nat (nat (- n)) else str_nat (nat n))"

text \<open>
  \<^verbatim>\<open>os.path.join(a, b)\<close> of posixpath: an absolute \<open>b\<close> replaces \<open>a\<close>; otherwise a
  separator is put between them unless \<open>a\<close> is empty or ends with one.
\<close>

definition path_join :: "string \<Rightarrow> string \<Rightarrow> string" where
  "path_join a b =
     (if startswith b ''/'' then b
      else if a = [] \<or> endswith a ''/'' then a @ b
      else a @ ''/'' @ b)"

subsection \<open>Input normalisation\<close>

text \<open>
  \<^verbatim>\<open>load_blacklist\<close>: the file is read line by line; \<open>blacklist_line\<close> is the body of
  the loop and \<open>load_blacklist\<close> runs it over the lines of the file, starting from the
  empty set.
\<close>

definition blacklist_line :: "nat list set \<Rightarrow> nat list \<Rightarrow> nat list set" where
  "blacklist_line blacklist line =
     (let url = strip line;
          blacklist = insert url blacklist
      in if startswith url (codepoints ''https'')
         then insert (re_sub_prefix (codepoints ''https:'') (codepoints ''http:'') url) blacklist
         else insert (re_sub_prefix (codepoints ''http:'') (codepoints ''https:'') url) blacklist)"

definition load_blacklist :: "nat list list \<Rightarrow> nat list set" where
  "load_blacklist lines = foldl blacklist_line {} lines"

subsection \<open>Output directories\<close>

text \<open>
  \<^verbatim>\<open>int(counter / MAX_FILES_PER_DIRECTORY)\<close> divides two integers into a float and
  truncates it. The true division of two integers is correctly rounded: the result is
  the double nearest to the exact quotient, ties going to the even significand, and
  \<^verbatim>\<open>OverflowError\<close> when that is beyond the doubles.

  For \<open>a, b > 0\<close>, \<open>binary_exponent a b\<close> is the \<open>e\<close> with \<open>2^e \<le> a / b < 2^(e + 1)\<close>,
  found from the bit lengths (\<^verbatim>\<open>int.bit_length\<close>). \<open>round_at_exponent a b e\<close> rounds
  \<open>a / b\<close> to a multiple \<open>m * 2^(e - 52)\<close> (a significand \<open>m\<close> of 53 bits) and truncates
  the result to an integer: it is \<open>m * 2^(e - 52)\<close> itself from \<open>e = 52\<close> on, and
  \<open>m div 2^(52 - e)\<close> below. (Below \<open>e = - 1022\<close> a double has fewer bits; the truncated
  result is 0 there either way.)
\<close>

fun bit_length :: "nat \<Rightarrow> nat" where
  "bit_length n = (if n = 0 then 0 else Suc (bit_length (n div 2)))"

declare bit_length.simps [simp del]

definition binary_exponent :: "nat \<Rightarrow> nat \<Rightarrow> int" where
  "binary_exponent a b =
     (let d = int (bit_length a) - int (bit_length b)
      in if (if 0 \<le> d then b * 2 ^ nat d \<le> a else b \<le> a * 2 ^ nat (- d)) then d else d - 1)"

definition round_half_even :: "nat \<Rightarrow> nat \<Rightarrow> nat" where
  "round_half_even n d =
     (let q = n div d; r = n mod d
      in if 2 * r < d then q
         else if d < 2 * r then q + 1
         else if even q then q else q + 1)"

definition round_at_exponent :: "nat \<Rightarrow> nat \<Rightarrow> int \<Rightarrow> error + nat" where
  "round_at_exponent a b e =
     (if 52 \<le> e
      then (let k = nat (e - 52);
                m = round_half_even a (b * 2 ^ k)
            in if 2 ^ 1024 \<le> m * 2 ^ k then Inl OverflowError else Inr (m * 2 ^ k))
      else (let k = nat (52 - e);
                m = round_half_even (a * 2 ^ k) b
            in Inr (m div 2 ^ k)))"

text \<open>\<^verbatim>\<open>int(a / b)\<close> for \<open>a \<ge> 0\<close> and \<open>b > 0\<close>.\<close>

definition float_div_trunc :: "nat \<Rightarrow> nat \<Rightarrow> error + nat" where
  "float_div_trunc a b =
     (if a = 0 then Inr 0 else round_at_exponent a b (binary_exponent a b))"

text \<open>
  \<^verbatim>\<open>int(a / b)\<close> for integers of either sign and \<open>b \<noteq> 0\<close>: rounding and truncation are
  symmetric in the sign.
\<close>

definition int_truediv :: "int \<Rightarrow> int \<Rightarrow> error + int" where
  "int_truediv a b =
     (case float_div_trunc (nat \<bar>a\<bar>) (nat \<bar>b\<bar>) of
        Inl err \<Rightarrow> Inl err
      | Inr t \<Rightarrow> Inr (sgn a * sgn b * int t))"

text \<open>\<^verbatim>\<open>determine_counter_dir\<close>; a zero divisor raises \<^verbatim>\<open>ZeroDivisionError\<close>.\<close>

definition determine_counter_dir :: "int \<Rightarrow> string \<Rightarrow> int option \<Rightarrow> error + string" where
  "determine_counter_dir MAX_FILES_PER_DIRECTORY dirname counter =
     (case counter of
        Some c \<Rightarrow>
          if MAX_FILES_PER_DIRECTORY = 0 then Inl ZeroDivisionError
          else (case int_truediv c MAX_FILES_PER_DIRECTORY of
                  Inl err \<Rightarrow> Inl err
                | Inr q \<Rightarrow> Inr (path_join dirname (str_int (q + 1))))
      | None \<Rightarrow> Inr (path_join dirname ''''))"

subsection \<open>The backoff scheduler\<close>

text \<open>
  A Python \<^verbatim>\<open>dict\<close> keeps its keys in insertion order, and \<^verbatim>\<open>list(domain_dict)\<close>
  reads them in that order: both dictionaries of the scheduler are association lists,
  read with \<open>map_of\<close>, written with \<open>AList.update\<close> (an existing key keeps its place,
  a new one goes last) and \<open>AList.delete\<close>. \<open>domain_dict\<close> maps a domain to its pending
  URLs, \<open>backoff_dict\<close> a domain to the time of its last dispatch. Times and
  \<open>sleeptime\<close> are integers in one unit (the clock's resolution).
\<close>

type_synonym domain_queue = "(string \<times> string list) list"
type_synonym backoff_registry = "(string \<times> int) list"

text \<open>
  \<^verbatim>\<open>random.choice(seq)\<close> raises \<^verbatim>\<open>IndexError\<close> on an empty sequence and otherwise
  returns the element at a random index below \<open>len(seq)\<close>; \<open>r\<close> is the generator's
  draw, reduced to that range.
\<close>

definition random_choice :: "'a list \<Rightarrow> nat \<Rightarrow> error + 'a" where
  "random_choice seq r = (if seq = [] then Inl IndexError else Inr (seq ! (r mod length seq)))"

text \<open>
  The safeguard's test: \<^verbatim>\<open>domain in backoff_dict and
  (datetime.now() - backoff_dict[domain]).total_seconds() < sleeptime\<close>.
\<close>

definition inside_window :: "backoff_registry \<Rightarrow> string \<Rightarrow> int \<Rightarrow> int \<Rightarrow> bool" where
  "inside_window backoff_dict domain now sleeptime =
     (case map_of backoff_dict domain of
        None \<Rightarrow> False
      | Some last_dispatch \<Rightarrow> now - last_dispatch < sleeptime)"

text \<open>
  \<^verbatim>\<open>draw_backoff_url\<close>. What the call reads from outside is its last argument: the
  random draw \<open>r\<close> and the two readings of the clock, the one of the safeguard and
  the one that is registered. Besides the four values the Python returns, the result
  says whether \<^verbatim>\<open>sleep(sleeptime)\<close> was called. \<^verbatim>\<open>pop()\<close> on an empty list raises
  \<^verbatim>\<open>IndexError\<close>.
\<close>

definition draw_backoff_url ::
  "domain_queue \<Rightarrow> backoff_registry \<Rightarrow> int \<Rightarrow> int \<Rightarrow> nat \<times> int \<times> int \<Rightarrow>
   error + (string \<times> domain_queue \<times> backoff_registry \<times> int \<times> bool)" where
  "draw_backoff_url domain_dict backoff_dict sleeptime i orc =
     (case orc of (r, now_check, now_dispatch) \<Rightarrow>
      case random_choice (map fst domain_dict) r of
        Inl e \<Rightarrow> Inl e
      | Inr domain \<Rightarrow>
          let (i, slept) =
                (if inside_window backoff_dict domain now_check sleeptime
                 then (if i + 1 \<ge> int (length domain_dict) * 3 then (0, True)
                       else (i + 1, False))
                 else (i, False))
          in case map_of domain_dict domain of
               None \<Rightarrow> Inl KeyError
             | Some queue \<Rightarrow>
                 if queue = [] then Inl IndexError
                 else
                   let url = last queue;
                       queue = butlast queue
                   in if queue = []
                      then Inr (url, AList.delete domain domain_dict,
                                AList.delete domain backoff_dict, i, slept)
                      else Inr (url, AList.update domain queue domain_dict,
                                AList.update domain now_dispatch backoff_dict, i, slept))"

text \<open>
  Two conditions on the scheduler's state: every domain of the queue has a pending URL
  (the partitioner only creates such queues and a draw deletes a queue it empties), and
  every domain of the registry has a non-empty queue.
\<close>

definition queues_nonempty :: "domain_queue \<Rightarrow> bool" where
  "queues_nonempty domain_dict = (\<forall>(d, q) \<in> set domain_dict. q \<noteq> [])"

definition registry_ok :: "domain_queue \<Rightarrow> backoff_registry \<Rightarrow> bool" where
  "registry_ok domain_dict backoff_dict =
     (\<forall>d \<in> fst ` set backoff_dict. \<exists>q. map_of domain_dict d = Some q \<and> q \<noteq> [])"

text \<open>
  A sequence of draws, each on the state the previous one returned, as the executors
  make them; one entry of \<open>orcs\<close> per draw.
\<close>

fun draw_many ::
  "(nat \<times> int \<times> int) list \<Rightarrow> int \<Rightarrow> domain_queue \<Rightarrow> backoff_registry \<Rightarrow> int \<Rightarrow>
   error + (domain_queue \<times> backoff_registry \<times> int)" where
  "draw_many [] sleeptime domain_dict backoff_dict i = Inr (domain_dict, backoff_dict, i)"
| "draw_many (orc # orcs) sleeptime domain_dict backoff_dict i =
     (case draw_backoff_url domain_dict backoff_dict sleeptime i orc of
        Inl e \<Rightarrow> Inl e
      | Inr (url, domain_dict, backoff_dict, i, slept) \<Rightarrow>
          draw_many orcs sleeptime domain_dict backoff_dict i)"

subsection \<open>Configuration, collaborators and the outside world\<close>

text \<open>
  The command-line options the functions read. \<^verbatim>\<open>args.list\<close> is the field \<open>list_only\<close>.
  The options that are only handed on to the extractor (\<^verbatim>\<open>fast\<close>, \<^verbatim>\<open>nocomments\<close>,
  \<^verbatim>\<open>notables\<close>, \<^verbatim>\<open>formatting\<close>, \<^verbatim>\<open>with_metadata\<close>, \<^verbatim>\<open>validate\<close>,
  \<^verbatim>\<open>target_language\<close>, \<^verbatim>\<open>deduplicate\<close>) are left to the extractor, which receives
  the whole record.
\<close>

record args =
  outputdir :: "string option"
  backup_dir :: "string option"
  inputdir :: string
  URL :: "string option"
  xml :: bool
  xmltei :: bool
  csv :: bool
  json :: bool
  output_format :: "string option"
  hash_as_name :: bool
  keep_dirs :: bool
  timeout :: bool
  parallel :: "int option"
  list_only :: bool
  archived :: bool
  blacklist :: "string set"

text \<open>
  The state outside the program that the functions change: the two output streams, the
  file system (the paths that exist, the directories among them, and the files written
  with their contents, latest first), the alarms set with \<^verbatim>\<open>signal.alarm\<close>, the calls
  of the extractor, the fetches (a batch of the thread pool as one entry, a synchronous
  fetch as a batch of one), and how many file names and scheduler draws the random
  generator and the clock have been asked for.
\<close>

record world =
  stderr :: "string list"
  stdout :: "string list"
  paths :: "string list"
  dirs :: "string list"
  written :: "(string \<times> string) list"
  alarms :: "int list"
  extract_calls :: "(string \<times> string option) list"
  fetches :: "string list list"
  names_drawn :: nat
  draws_made :: nat

text \<open>
  What the program imports and reads but does not define: the collaborators
  (\<^verbatim>\<open>fetch_url\<close>, \<^verbatim>\<open>extract\<close>, \<^verbatim>\<open>content_fingerprint\<close>, \<^verbatim>\<open>validate_url\<close>,
  \<^verbatim>\<open>extract_domain\<close>), the constants of the settings module, and what the run reads
  from its environment: per scheduler draw the random number and the two clock
  readings, the file names \<^verbatim>\<open>get_writable_path\<close> generates (each of
  \<^verbatim>\<open>FILENAME_LEN\<close> letters and digits), whether \<^verbatim>\<open>makedirs\<close> fails on a directory,
  the order in which the futures of a batch complete (a permutation of the batch), the
  contents of the input files and the files \<^verbatim>\<open>os.walk\<close> finds. \<open>extract_html\<close> is
  \<^verbatim>\<open>extract\<close>: it returns the extracted text or \<^verbatim>\<open>None\<close>, or raises (\<open>Inl\<close>, the
  exception's message and its class as \<^verbatim>\<open>str\<close> prints them).
\<close>

record env =
  fetch_url :: "string \<Rightarrow> string option"
  extract_html :: "string \<Rightarrow> string option \<Rightarrow> args \<Rightarrow> (string \<times> string) + string option"
  content_fingerprint :: "string \<Rightarrow> string"
  validate_url :: "string \<Rightarrow> bool"
  extract_domain :: "string \<Rightarrow> string"
  DOWNLOAD_THREADS :: int
  FILE_PROCESSING_CORES :: int
  MIN_FILE_SIZE :: int
  MAX_FILE_SIZE :: int
  MAX_FILES_PER_DIRECTORY :: int
  PROCESSING_TIMEOUT :: int
  draw_source :: "nat \<Rightarrow> nat \<times> int \<times> int"
  random_name :: "nat \<Rightarrow> string"
  makedirs_fails :: "string \<Rightarrow> bool"
  as_completed :: "string list \<Rightarrow> string list"
  read_file :: "string \<Rightarrow> string"
  generate_filelist :: "string \<Rightarrow> string list"

definition newline :: string where
  "newline = [CHR 0x0A]"

definition path_exists :: "world \<Rightarrow> string \<Rightarrow> bool" where
  "path_exists w p = (p \<in> set (paths w))"

definition path_isdir :: "world \<Rightarrow> string \<Rightarrow> bool" where
  "path_isdir w p = (p \<in> set (dirs w))"

text \<open>
  \<^verbatim>\<open>with open(p, mode='w') as f: f.write(content)\<close>; opening is taken to succeed.
\<close>

definition write_file :: "string \<Rightarrow> string \<Rightarrow> world \<Rightarrow> world" where
  "write_file p content w =
     w\<lparr>paths := p # paths w, written := (p, content) # written w\<rparr>"

subsection \<open>Output paths and writing\<close>

text \<open>
  \<^verbatim>\<open>check_outputdir_status\<close>. \<^verbatim>\<open>makedirs(directory, exist_ok=True)\<close> raises
  \<^verbatim>\<open>OSError\<close> when the path exists and is not a directory, or when the system
  refuses; the function reports that and returns \<^verbatim>\<open>False\<close>.
\<close>

definition check_outputdir_status :: "env \<Rightarrow> string \<Rightarrow> world \<Rightarrow> bool \<times> world" where
  "check_outputdir_status e directory w =
     (if \<not> path_exists w directory \<or> \<not> path_isdir w directory
      then (if path_exists w directory \<or> makedirs_fails e directory
            then (False, w\<lparr>stderr := stderr w @
                    [''ERROR: Destination directory cannot be created: '' @ directory @ newline]\<rparr>)
            else (True, w\<lparr>paths := directory # paths w, dirs := directory # dirs w\<rparr>))
      else (True, w))"

text \<open>
  \<^verbatim>\<open>get_writable_path\<close>: a random file name is generated, and generated again as long
  as the path exists. The loop has no bound, so it is a partial function: \<open>None\<close> when
  it does not return.
\<close>

partial_function (option) get_writable_path ::
  "env \<Rightarrow> string \<Rightarrow> string \<Rightarrow> world \<Rightarrow> ((string \<times> string) \<times> world) option" where
  "get_writable_path e destdir extension w =
     (let filename = random_name e (names_drawn w);
          output_path = path_join destdir (filename @ extension);
          w = w\<lparr>names_drawn := Suc (names_drawn w)\<rparr>
      in if path_exists w output_path then get_writable_path e destdir extension w
         else Some ((output_path, filename), w))"

declare get_writable_path.simps [code]

text \<open>
  The two substitutions of \<^verbatim>\<open>determine_output_path\<close>.
  \<^verbatim>\<open>re.sub(r'[^/]+$', '', s)\<close> removes the characters after the last slash.
  \<^verbatim>\<open>re.sub(r'\.[a-z]{2,5}$', '', s)\<close> removes a final dot with two to five lower-case
  letters; \<^verbatim>\<open>$\<close> also matches before a line feed that ends the string.
\<close>

definition strip_basename :: "string \<Rightarrow> string" where
  "strip_basename s = rev (dropWhile (\<lambda>c. c \<noteq> CHR ''/'') (rev s))"

definition islower :: "char \<Rightarrow> bool" where
  "islower c = (97 \<le> (of_char c :: nat) \<and> (of_char c :: nat) \<le> 122)"

definition strip_ext_at_end :: "string \<Rightarrow> string option" where
  "strip_ext_at_end s =
     (let n = length (takeWhile islower (rev s))
      in if 2 \<le> n \<and> n \<le> 5 \<and> n < length s \<and> s ! (length s - n - 1) = CHR ''.''
         then Some (take (length s - n - 1) s) else None)"

definition strip_extension :: "string \<Rightarrow> string" where
  "strip_extension s =
     (case strip_ext_at_end s of
        Some t \<Rightarrow> t
      | None \<Rightarrow>
          if s \<noteq> [] \<and> last s = CHR 0x0A
          then (case strip_ext_at_end (butlast s) of Some t \<Rightarrow> t @ newline | None \<Rightarrow> s)
          else s)"

definition determine_extension :: "args \<Rightarrow> string" where
  "determine_extension a =
     (if xml a \<or> xmltei a \<or> output_format a = Some ''xml'' then ''.xml''
      else if csv a \<or> output_format a = Some ''csv'' then ''.csv''
      else if json a \<or> output_format a = Some ''json'' then ''.json''
      else ''.txt'')"

text \<open>
  \<^verbatim>\<open>determine_output_path\<close>. A \<^verbatim>\<open>None\<close> where a string is needed
  (\<^verbatim>\<open>args.outputdir\<close>, or \<^verbatim>\<open>orig_filename\<close> with \<^verbatim>\<open>keep_dirs\<close>) raises
  \<^verbatim>\<open>TypeError\<close>.
\<close>

definition determine_output_path ::
  "env \<Rightarrow> args \<Rightarrow> string option \<Rightarrow> string \<Rightarrow> int option \<Rightarrow> string option \<Rightarrow> world \<Rightarrow>
   error + ((string \<times> string) \<times> world)" where
  "determine_output_path e a orig_filename content counter new_filename w =
     (let extension = determine_extension a;
          new_filename =
            (if hash_as_name a
             then Some (map (\<lambda>c. if c = CHR ''/'' then CHR ''-'' else c)
                         (take 27 (content_fingerprint e content)))
             else new_filename)
      in if keep_dirs a
         then (case orig_filename of
                 None \<Rightarrow> Inl TypeError
               | Some orig \<Rightarrow>
                   (case outputdir a of
                      None \<Rightarrow> Inl TypeError
                    | Some out \<Rightarrow>
                        let orig_directory = strip_basename orig;
                            destination_directory = path_join out orig_directory;
                            filename = strip_extension orig;
                            output_path = path_join out (filename @ extension)
                        in Inr ((output_path, destination_directory), w)))
         else (case outputdir a of
                 None \<Rightarrow> Inl TypeError
               | Some out \<Rightarrow>
                   (case determine_counter_dir (MAX_FILES_PER_DIRECTORY e) out counter of
                      Inl err \<Rightarrow> Inl err
                    | Inr destination_directory \<Rightarrow>
                        (case new_filename of
                           None \<Rightarrow>
                             (case get_writable_path e destination_directory extension w of
                                None \<Rightarrow> Inl Hangs
                              | Some ((output_path, _), w) \<Rightarrow>
                                  Inr ((output_path, destination_directory), w))
                         | Some name \<Rightarrow>
                             Inr ((path_join destination_directory (name @ extension),
                                   destination_directory), w)))))"

text \<open>
  \<^verbatim>\<open>archive_html\<close>; its caller has tested that \<^verbatim>\<open>args.backup_dir\<close> is a non-empty
  string.
\<close>

definition archive_html ::
  "env \<Rightarrow> string \<Rightarrow> args \<Rightarrow> int option \<Rightarrow> world \<Rightarrow> error + (string \<times> world)" where
  "archive_html e htmlstring a counter w =
     (case backup_dir a of
        None \<Rightarrow> Inl TypeError
      | Some backup \<Rightarrow>
          (case determine_counter_dir (MAX_FILES_PER_DIRECTORY e) backup counter of
             Inl err \<Rightarrow> Inl err
           | Inr destination_directory \<Rightarrow>
               (case get_writable_path e destination_directory ''.html'' w of
                  None \<Rightarrow> Inl Hangs
                | Some ((output_path, filename), w) \<Rightarrow>
                    (case check_outputdir_status e destination_directory w of
                       (True, w) \<Rightarrow> Inr (filename, write_file output_path htmlstring w)
                     | (False, w) \<Rightarrow> Inr (filename, w)))))"

text \<open>\<^verbatim>\<open>write_result\<close>: nothing is done for \<^verbatim>\<open>None\<close>.\<close>

definition write_result ::
  "env \<Rightarrow> string option \<Rightarrow> args \<Rightarrow> string option \<Rightarrow> int option \<Rightarrow> string option \<Rightarrow> world \<Rightarrow>
   error + world" where
  "write_result e result a orig_filename counter new_filename w =
     (case result of
        None \<Rightarrow> Inr w
      | Some res \<Rightarrow>
          (case outputdir a of
             None \<Rightarrow> Inr (w\<lparr>stdout := stdout w @ [res @ newline]\<rparr>)
           | Some _ \<Rightarrow>
               (case determine_output_path e a orig_filename res counter new_filename w of
                  Inl err \<Rightarrow> Inl err
                | Inr ((destination_path, destination_directory), w) \<Rightarrow>
                    (case check_outputdir_status e destination_directory w of
                       (True, w) \<Rightarrow> Inr (write_file destination_path res w)
                     | (False, w) \<Rightarrow> Inr w))))"

subsection \<open>The per-document safety check and the result processor\<close>

text \<open>
  \<^verbatim>\<open>examine\<close>. The three rejections write one line to the diagnostic stream and leave
  the result \<^verbatim>\<open>None\<close>. Otherwise the extractor is called, between the two alarms when
  \<^verbatim>\<open>args.timeout\<close> is set; an exception of the extractor (the timeout handler's
  included) is caught and reported.
\<close>

definition examine ::
  "env \<Rightarrow> string option \<Rightarrow> args \<Rightarrow> string option \<Rightarrow> world \<Rightarrow> string option \<times> world" where
  "examine e htmlstring a url w =
     (case htmlstring of
        None \<Rightarrow> (None, w\<lparr>stderr := stderr w @ [''ERROR: empty document'' @ newline]\<rparr>)
      | Some html \<Rightarrow>
          if int (length html) > MAX_FILE_SIZE e
          then (None, w\<lparr>stderr := stderr w @ [''ERROR: file too large'' @ newline]\<rparr>)
          else if int (length html) < MIN_FILE_SIZE e
          then (None, w\<lparr>stderr := stderr w @ [''ERROR: file too small'' @ newline]\<rparr>)
          else
            let w = (if timeout a then w\<lparr>alarms := alarms w @ [PROCESSING_TIMEOUT e]\<rparr> else w);
                w = w\<lparr>extract_calls := extract_calls w @ [(html, url)]\<rparr>;
                (result, w) =
                  (case extract_html e html url a of
                     Inr res \<Rightarrow> (res, w)
                   | Inl (msg, cls) \<Rightarrow>
                       (None, w\<lparr>stderr := stderr w @
                          [''ERROR: '' @ msg @ newline @ ''Details: '' @ cls @ newline]\<rparr>));
                w = (if timeout a then w\<lparr>alarms := alarms w @ [0]\<rparr> else w)
            in (result, w))"

text \<open>
  \<^verbatim>\<open>file_processing\<close>, what a worker process runs on one file: the file is read as bytes,
  examined and written out.
\<close>

definition file_processing :: "env \<Rightarrow> string \<Rightarrow> args \<Rightarrow> int option \<Rightarrow> world \<Rightarrow> error + world" where
  "file_processing e filename a counter w =
     (let htmlstring = read_file e filename;
          (result, w) = examine e (Some htmlstring) a (URL a) w
      in write_result e result a (Some filename) counter None w)"

text \<open>
  \<^verbatim>\<open>process_result\<close>. \<^verbatim>\<open>if args.backup_dir\<close> holds for a non-empty string. The result
  is written with \<^verbatim>\<open>orig_filename=None\<close> and \<^verbatim>\<open>counter=None\<close>, whatever the counter is.
\<close>

definition process_result ::
  "env \<Rightarrow> string \<Rightarrow> args \<Rightarrow> string \<Rightarrow> int option \<Rightarrow> world \<Rightarrow> error + (int option \<times> world)" where
  "process_result e htmlstring a url counter w =
     (case (if backup_dir a \<noteq> None \<and> backup_dir a \<noteq> Some []
            then (case archive_html e htmlstring a counter w of
                    Inl err \<Rightarrow> Inl err
                  | Inr (fileslug, w) \<Rightarrow> Inr (Some fileslug, w))
            else Inr (None, w)) of
        Inl err \<Rightarrow> Inl err
      | Inr (fileslug, w) \<Rightarrow>
          let (result, w) = examine e (Some htmlstring) a (Some url) w
          in (case write_result e result a None None fileslug w of
                Inl err \<Rightarrow> Inl err
              | Inr w \<Rightarrow> Inr (map_option (\<lambda>c. c + 1) counter, w)))"

subsection \<open>The fetch executors\<close>

text \<open>The number of URLs pending in the queue; every draw lowers it.\<close>

definition pending :: "domain_queue \<Rightarrow> nat" where
  "pending domain_dict = sum_list (map (\<lambda>p. length (snd p)) domain_dict)"

lemma pending_delete_le: "pending (AList.delete k dd) \<le> pending dd"
  by (induction dd) (auto simp: pending_def)

lemma pending_delete:
  "map_of dd k = Some q \<Longrightarrow> pending (AList.delete k dd) + length q \<le> pending dd"
proof (induction dd)
  case Nil
  then show ?case by simp
next
  case (Cons p dd)
  show ?case
  proof (cases "fst p = k")
    case True
    with Cons.prems have "snd p = q" by (cases p) simp
    with True pending_delete_le [of k dd] show ?thesis
      by (cases p) (simp add: pending_def)
  next
    case False
    with Cons.prems have "map_of dd k = Some q" by (cases p) (simp split: if_splits)
    from Cons.IH [OF this] False show ?thesis
      by (cases p) (simp add: pending_def)
  qed
qed

lemma pending_update:
  "map_of dd k = Some q \<Longrightarrow> pending (AList.update k q' dd) + length q = pending dd + length q'"
  by (induction dd) (auto simp: pending_def split: if_splits)

lemma draw_backoff_url_pending:
  assumes "draw_backoff_url dd bd sleeptime i orc = Inr (url, dd', bd', i', slept)"
  shows "pending dd' < pending dd"
proof -
  from assms obtain domain q where q: "map_of dd domain = Some q" "q \<noteq> []"
    and c: "dd' = AList.delete domain dd \<or> dd' = AList.update domain (butlast q) dd"
    by (cases orc)
       (auto simp: draw_backoff_url_def Let_def
             split: sum.splits option.splits if_splits prod.splits)
  from q(2) have l: "length (butlast q) + 1 = length q" by (cases q rule: rev_cases) simp_all
  from c show ?thesis
  proof
    assume "dd' = AList.delete domain dd"
    with pending_delete [OF q(1)] l show ?thesis by simp
  next
    assume "dd' = AList.update domain (butlast q) dd"
    with pending_update [OF q(1), of "butlast q"] l show ?thesis by simp
  qed
qed

text \<open>
  \<^verbatim>\<open>single_threaded_processing\<close>: \<open>single_loop\<close> is its \<^verbatim>\<open>while\<close> loop, on the
  variables the loop changes. An exception of a callee ends the run.
\<close>

function single_loop ::
  "env \<Rightarrow> args \<Rightarrow> int \<Rightarrow> domain_queue \<Rightarrow> backoff_registry \<Rightarrow> int \<Rightarrow> string list \<Rightarrow>
   int option \<Rightarrow> world \<Rightarrow> error + ((string list \<times> int option) \<times> world)" where
  "single_loop e a sleeptime domain_dict backoff_dict i errors counter w =
     (if domain_dict \<noteq> []
      then (case draw_backoff_url domain_dict backoff_dict sleeptime i
                   (draw_source e (draws_made w)) of
              Inl err \<Rightarrow> Inl err
            | Inr (url, domain_dict, backoff_dict, i, slept) \<Rightarrow>
                let w = w\<lparr>draws_made := Suc (draws_made w), fetches := fetches w @ [[url]]\<rparr>
                in (case fetch_url e url of
                      Some htmlstring \<Rightarrow>
                        (case process_result e htmlstring a url counter w of
                           Inl err \<Rightarrow> Inl err
                         | Inr (counter, w) \<Rightarrow>
                             single_loop e a sleeptime domain_dict backoff_dict i errors counter w)
                    | None \<Rightarrow>
                        single_loop e a sleeptime domain_dict backoff_dict i (errors @ [url])
                          counter w))
      else Inr ((errors, counter), w))"
  by pat_completeness auto
termination
  by (relation "measure (\<lambda>(e, a, sleeptime, domain_dict, rest). pending domain_dict)")
     (auto dest: draw_backoff_url_pending)

declare single_loop.simps [simp del]

definition single_threaded_processing ::
  "env \<Rightarrow> domain_queue \<Rightarrow> backoff_registry \<Rightarrow> args \<Rightarrow> int \<Rightarrow> int option \<Rightarrow> world \<Rightarrow>
   error + ((string list \<times> int option) \<times> world)" where
  "single_threaded_processing e domain_dict backoff_dict a sleeptime counter w =
     single_loop e a sleeptime domain_dict backoff_dict 3 [] counter w"

text \<open>
  The inner loop of \<^verbatim>\<open>multi_threaded_processing\<close>, which fills the buffer:
  \<^verbatim>\<open>while len(bufferlist) < download_threads\<close>.
\<close>

function populate_buffer ::
  "env \<Rightarrow> int \<Rightarrow> int \<Rightarrow> string list \<Rightarrow> domain_queue \<Rightarrow> backoff_registry \<Rightarrow> int \<Rightarrow> world \<Rightarrow>
   error + (string list \<times> domain_queue \<times> backoff_registry \<times> int \<times> world)" where
  "populate_buffer e sleeptime download_threads bufferlist domain_dict backoff_dict i w =
     (if int (length bufferlist) < download_threads
      then (case draw_backoff_url domain_dict backoff_dict sleeptime i
                   (draw_source e (draws_made w)) of
              Inl err \<Rightarrow> Inl err
            | Inr (url, domain_dict, backoff_dict, i, slept) \<Rightarrow>
                populate_buffer e sleeptime download_threads (bufferlist @ [url])
                  domain_dict backoff_dict i (w\<lparr>draws_made := Suc (draws_made w)\<rparr>))
      else Inr (bufferlist, domain_dict, backoff_dict, i, w))"
  by pat_completeness auto
termination
  by (relation "measure (\<lambda>(e, sleeptime, download_threads, bufferlist, rest).
                   nat (download_threads - int (length bufferlist)))")
     auto

declare populate_buffer.simps [simp del]

text \<open>
  The loop over the completed futures of a batch: \<open>urls\<close> is the batch in its order of
  completion.
\<close>

fun handle_futures ::
  "env \<Rightarrow> args \<Rightarrow> string list \<Rightarrow> string list \<Rightarrow> int option \<Rightarrow> world \<Rightarrow>
   error + ((string list \<times> int option) \<times> world)" where
  "handle_futures e a [] errors counter w = Inr ((errors, counter), w)"
| "handle_futures e a (url # urls) errors counter w =
     (case fetch_url e url of
        Some htmlstring \<Rightarrow>
          (case process_result e htmlstring a url counter w of
             Inl err \<Rightarrow> Inl err
           | Inr (counter, w) \<Rightarrow> handle_futures e a urls errors counter w)
      | None \<Rightarrow> handle_futures e a urls (errors @ [url]) counter w)"

lemma populate_buffer_pending:
  "populate_buffer e sleeptime n bufferlist dd bd i w = Inr (bufferlist', dd', bd', i', w') \<Longrightarrow>
   pending dd' + length bufferlist' \<le> pending dd + length bufferlist \<and>
   n \<le> int (length bufferlist')"
proof (induction e sleeptime n bufferlist dd bd i w rule: populate_buffer.induct)
  case (1 e sleeptime n bufferlist dd bd i w)
  show ?case
  proof (cases "int (length bufferlist) < n")
    case False
    with "1.prems" show ?thesis by (simp add: populate_buffer.simps)
  next
    case True
    with "1.prems" obtain url dd1 bd1 i1 slept
      where d: "draw_backoff_url dd bd sleeptime i (draw_source e (draws_made w)) =
                  Inr (url, dd1, bd1, i1, slept)"
        and r: "populate_buffer e sleeptime n (bufferlist @ [url]) dd1 bd1 i1
                  (w\<lparr>draws_made := Suc (draws_made w)\<rparr>) = Inr (bufferlist', dd', bd', i', w')"
      by (subst (asm) populate_buffer.simps) (auto split: sum.splits)
    from "1.IH" [OF True d refl refl refl refl r] draw_backoff_url_pending [OF d]
    show ?thesis by simp
  qed
qed

text \<open>
  \<^verbatim>\<open>multi_threaded_processing\<close>: \<open>multi_loop\<close> is its outer \<^verbatim>\<open>while\<close> loop. The size
  of the set comprehension is the number of distinct pending URLs.
  \<^verbatim>\<open>ThreadPoolExecutor(max_workers=n)\<close> raises \<^verbatim>\<open>ValueError\<close> for \<open>n \<le> 0\<close>.
\<close>

function multi_loop ::
  "env \<Rightarrow> args \<Rightarrow> int \<Rightarrow> int \<Rightarrow> domain_queue \<Rightarrow> backoff_registry \<Rightarrow> int \<Rightarrow> string list \<Rightarrow>
   int option \<Rightarrow> world \<Rightarrow> error + ((string list \<times> int option) \<times> world)" where
  "multi_loop e a sleeptime download_threads domain_dict backoff_dict i errors counter w =
     (if domain_dict \<noteq> []
      then if int (length (remdups (concat (map snd domain_dict)))) < download_threads
           then single_threaded_processing e domain_dict backoff_dict a sleeptime counter w
           else (case populate_buffer e sleeptime download_threads [] domain_dict backoff_dict i w of
                   Inl err \<Rightarrow> Inl err
                 | Inr (bufferlist, domain_dict, backoff_dict, i, w) \<Rightarrow>
                     if download_threads \<le> 0 then Inl ValueError
                     else
                       let w = w\<lparr>fetches := fetches w @ [bufferlist]\<rparr>
                       in (case handle_futures e a (as_completed e bufferlist) errors counter w of
                             Inl err \<Rightarrow> Inl err
                           | Inr ((errors, counter), w) \<Rightarrow>
                               multi_loop e a sleeptime download_threads domain_dict backoff_dict
                                 i errors counter w))
      else Inr ((errors, counter), w))"
  by pat_completeness auto
termination
proof (relation "measure (\<lambda>(e, a, sleeptime, download_threads, domain_dict, rest).
                   pending domain_dict)", goal_cases)
  case 1
  show ?case by simp
next
  case (2 e a sleeptime download_threads domain_dict backoff_dict i errors counter w
          x2 bufferlist y domain_dict' ya backoff_dict' yb i' w')
  from populate_buffer_pending [of e sleeptime download_threads "[]" domain_dict backoff_dict i w
         bufferlist domain_dict' backoff_dict' i' w'] 2
  show ?case by auto
qed

declare multi_loop.simps [simp del]

definition multi_threaded_processing ::
  "env \<Rightarrow> domain_queue \<Rightarrow> args \<Rightarrow> int \<Rightarrow> int option \<Rightarrow> world \<Rightarrow>
   error + ((string list \<times> int option) \<times> world)" where
  "multi_threaded_processing e domain_dict a sleeptime counter w =
     (let download_threads =
            (case parallel a of
               Some p \<Rightarrow> if p \<noteq> 0 then p else DOWNLOAD_THREADS e
             | None \<Rightarrow> DOWNLOAD_THREADS e)
      in multi_loop e a sleeptime download_threads domain_dict [] 0 [] counter w)"

subsection \<open>The URL pipeline\<close>

text \<open>\<^verbatim>\<open>list(OrderedDict.fromkeys(xs))\<close>: the first occurrence of every element, in order.\<close>

fun fromkeys :: "'a list \<Rightarrow> 'a list" where
  "fromkeys [] = []"
| "fromkeys (x # xs) = x # filter (\<lambda>y. y \<noteq> x) (fromkeys xs)"

definition url_processing_checks :: "env \<Rightarrow> string set \<Rightarrow> string list \<Rightarrow> string list" where
  "url_processing_checks e blacklist' input_urls =
     (let input_urls = (if blacklist' \<noteq> {} then filter (\<lambda>u. u \<notin> blacklist') input_urls
                        else input_urls);
          input_urls = (if input_urls \<noteq> [] then filter (validate_url e) input_urls
                        else input_urls)
      in if input_urls \<noteq> [] then fromkeys input_urls else [])"

text \<open>
  The loop that builds the domain-aware processing list. It takes the URLs off the end
  of \<open>input_urls\<close> until the list is empty, and returns the list as the loop leaves it
  together with the dictionary. A domain that is not yet a key gets the empty list, and
  the URL is appended to the domain's list.
\<close>

function domain_partition ::
  "env \<Rightarrow> string list \<Rightarrow> domain_queue \<Rightarrow> string list \<times> domain_queue" where
  "domain_partition e input_urls domain_dict =
     (if input_urls \<noteq> []
      then let url = last input_urls;
               input_urls = butlast input_urls;
               domain_name = extract_domain e url;
               queue = (case map_of domain_dict domain_name of None \<Rightarrow> [] | Some q \<Rightarrow> q);
               domain_dict = AList.update domain_name (queue @ [url]) domain_dict
           in domain_partition e input_urls domain_dict
      else (input_urls, domain_dict))"
  by pat_completeness auto
termination
  by (relation "measure (\<lambda>(e, input_urls, domain_dict). length input_urls)") auto

declare domain_partition.simps [simp del]

text \<open>
  Lines 296 to 307 of the pipeline: the dictionary is built, then the file counter is
  initialised from the length of \<open>input_urls\<close> as the loop left it.
\<close>

definition build_processing_list :: "env \<Rightarrow> string list \<Rightarrow> domain_queue \<times> int option" where
  "build_processing_list e input_urls =
     (let (input_urls, domain_dict) = domain_partition e input_urls [];
          counter = (if int (length input_urls) > MAX_FILES_PER_DIRECTORY e then Some 0 else None)
      in (domain_dict, counter))"

text \<open>The list-only mode: every URL is written out by \<^verbatim>\<open>write_result(url, args)\<close>.\<close>

fun list_urls :: "env \<Rightarrow> args \<Rightarrow> string list \<Rightarrow> world \<Rightarrow> error + world" where
  "list_urls e a [] w = Inr w"
| "list_urls e a (url # urls) w =
     (case write_result e (Some url) a None None None w of
        Inl err \<Rightarrow> Inl err
      | Inr w \<Rightarrow> list_urls e a urls w)"

definition url_processing_pipeline ::
  "env \<Rightarrow> args \<Rightarrow> string list \<Rightarrow> int \<Rightarrow> world \<Rightarrow> error + world" where
  "url_processing_pipeline e a input_urls sleeptime w =
     (let input_urls = url_processing_checks e (blacklist a) input_urls
      in if list_only a then list_urls e a input_urls w
         else
           let (domain_dict, counter) = build_processing_list e input_urls
           in (case (if length domain_dict \<le> 5
                     then single_threaded_processing e domain_dict [] a sleeptime counter w
                     else multi_threaded_processing e domain_dict a sleeptime counter w) of
                 Inl err \<Rightarrow> Inl err
               | Inr ((errors, counter), w) \<Rightarrow>
                   if archived a
                   then (let domain_dict =
                               [(''archive.org'',
                                 map (\<lambda>u. ''https://web.archive.org/web/20/'' @ u) errors)]
                         in case single_threaded_processing e domain_dict [] a sleeptime counter w of
                              Inl err \<Rightarrow> Inl err
                            | Inr ((archived_errors, _), w) \<Rightarrow> Inr w)
                   else Inr w))"

subsection \<open>The file pipeline\<close>

text \<open>
  \<^verbatim>\<open>file_processing_pipeline\<close>. A dispatch is one \<^verbatim>\<open>pool.map\<close>: the counter handed to
  every \<^verbatim>\<open>file_processing\<close> of the batch, and the batch. The workers are separate
  processes; what the pipeline itself does is the sequence of its dispatches, which is
  what the model returns. \<^verbatim>\<open>Pool(processes=n)\<close> raises \<^verbatim>\<open>ValueError\<close> for \<open>n < 1\<close>.
  \<open>file_batches\<close> is the \<^verbatim>\<open>for\<close> loop over the files.
\<close>

type_synonym dispatch = "int option \<times> string list"

fun file_batches ::
  "int \<Rightarrow> int \<Rightarrow> string list \<Rightarrow> string list \<Rightarrow> int option \<Rightarrow> dispatch list \<Rightarrow>
   error + (string list \<times> int option \<times> dispatch list)" where
  "file_batches processing_cores max_files [] filebatch filecounter dispatched =
     Inr (filebatch, filecounter, dispatched)"
| "file_batches processing_cores max_files (filename # files) filebatch filecounter dispatched =
     (let filebatch = filebatch @ [filename]
      in if int (length filebatch) > max_files
         then (let filecounter = (case filecounter of None \<Rightarrow> 0 | Some c \<Rightarrow> c)
               in if processing_cores < 1 then Inl ValueError
                  else file_batches processing_cores max_files files []
                         (Some (filecounter + int (length filebatch)))
                         (dispatched @ [(Some filecounter, filebatch)]))
         else file_batches processing_cores max_files files filebatch filecounter dispatched)"

definition file_processing_pipeline :: "env \<Rightarrow> args \<Rightarrow> error + dispatch list" where
  "file_processing_pipeline e a =
     (let processing_cores =
            (case parallel a of
               Some p \<Rightarrow> if p \<noteq> 0 then p else FILE_PROCESSING_CORES e
             | None \<Rightarrow> FILE_PROCESSING_CORES e)
      in case file_batches processing_cores (MAX_FILES_PER_DIRECTORY e)
                (generate_filelist e (inputdir a)) [] None [] of
           Inl err \<Rightarrow> Inl err
         | Inr (filebatch, filecounter, dispatched) \<Rightarrow>
             let filecounter = map_option (\<lambda>c. c + int (length filebatch)) filecounter
             in if processing_cores < 1 then Inl ValueError
                else Inr (dispatched @ [(filecounter, filebatch)]))"

subsection \<open>Concrete inputs\<close>

text \<open>
  Inputs on which the functions are run below. \<open>stub_env\<close> is a deterministic
  environment: the stub fetcher fails on every URL, the extractor returns its input,
  every scheduler draw takes the first domain of the queue and reads the clock at the
  number of the draw, futures complete in the order of the batch, and a shard holds 200
  files. \<open>stub_args\<close> writes to standard output, with every option off.
\<close>

definition stub_env :: env where
  "stub_env =
     \<lparr>fetch_url = (\<lambda>url. None),
      extract_html = (\<lambda>html url a. Inr (Some html)),
      content_fingerprint = (\<lambda>content. content),
      validate_url = (\<lambda>url. True),
      extract_domain = (\<lambda>url. takeWhile (\<lambda>c. c \<noteq> CHR ''/'') (drop 7 url)),
      DOWNLOAD_THREADS = 4,
      FILE_PROCESSING_CORES = 2,
      MIN_FILE_SIZE = 10,
      MAX_FILE_SIZE = 20000000,
      MAX_FILES_PER_DIRECTORY = 200,
      PROCESSING_TIMEOUT = 30,
      draw_source = (\<lambda>k. (0, int k, int k)),
      random_name = (\<lambda>k. str_nat k),
      makedirs_fails = (\<lambda>directory. False),
      as_completed = (\<lambda>bufferlist. bufferlist),
      read_file = (\<lambda>filename. []),
      generate_filelist = (\<lambda>directory. map (\<lambda>n. path_join directory (str_nat n)) [0..<250])\<rparr>"

definition stub_args :: args where
  "stub_args =
     \<lparr>outputdir = None, backup_dir = None, inputdir = ''in'', URL = None,
      xml = False, xmltei = False, csv = False, json = False, output_format = None,
      hash_as_name = False, keep_dirs = False, timeout = False, parallel = None,
      list_only = False, archived = False, blacklist = {}\<rparr>"

definition empty_world :: world where
  "empty_world =
     \<lparr>stderr = [], stdout = [], paths = [], dirs = [], written = [], alarms = [],
      extract_calls = [], fetches = [], names_drawn = 0, draws_made = 0\<rparr>"

section \<open>Properties\<close>

subsection \<open>The blacklist\<close>

lemma blacklist_line_keeps: "x \<in> bl \<Longrightarrow> x \<in> blacklist_line bl line"
  by (simp add: blacklist_line_def Let_def)

lemma blacklist_fold_keeps: "x \<in> bl \<Longrightarrow> x \<in> foldl blacklist_line bl ls"
  by (induction ls arbitrary: bl) (simp_all add: blacklist_line_keeps)

lemma blacklist_fold_member:
  "line \<in> set ls \<Longrightarrow> x \<in> blacklist_line {} line \<Longrightarrow> x \<in> foldl blacklist_line bl ls"
proof (induction ls arbitrary: bl)
  case Nil
  then show ?case by simp
next
  case (Cons l ls)
  show ?case
  proof (cases "line = l")
    case True
    from Cons.prems(2) have "x \<in> blacklist_line bl l"
      unfolding True blacklist_line_def Let_def by (auto split: if_splits)
    then show ?thesis by (simp add: blacklist_fold_keeps)
  next
    case False
    with Cons.prems have "line \<in> set ls" by simp
    from Cons.IH [OF this Cons.prems(2)] show ?thesis by simp
  qed
qed

lemma blacklist_line_http:
  "strip line = codepoints ''http://'' @ rest \<Longrightarrow>
   codepoints ''http://'' @ rest \<in> blacklist_line {} line \<and>
   codepoints ''https://'' @ rest \<in> blacklist_line {} line"
  by (simp add: blacklist_line_def Let_def startswith_def re_sub_prefix_def codepoints_def)

lemma blacklist_line_https:
  "strip line = codepoints ''https://'' @ rest \<Longrightarrow>
   codepoints ''http://'' @ rest \<in> blacklist_line {} line \<and>
   codepoints ''https://'' @ rest \<in> blacklist_line {} line"
  by (simp add: blacklist_line_def Let_def startswith_def re_sub_prefix_def codepoints_def)

text \<open>
  Claim C7. Whichever of the two schemes a line of the blacklist file lists, the
  returned set holds both the \<^verbatim>\<open>http://\<close> and the \<^verbatim>\<open>https://\<close> form of that entry.
  The entry is the line as \<^verbatim>\<open>str.strip\<close> leaves it, for any white space of Unicode
  around it.
\<close>

theorem load_blacklist_both_schemes:
  assumes "line \<in> set lines"
    and "strip line = codepoints ''http://'' @ rest \<or> strip line = codepoints ''https://'' @ rest"
  shows "codepoints ''http://'' @ rest \<in> load_blacklist lines \<and>
         codepoints ''https://'' @ rest \<in> load_blacklist lines"
proof -
  from assms(2)
  have "codepoints ''http://'' @ rest \<in> blacklist_line {} line \<and>
        codepoints ''https://'' @ rest \<in> blacklist_line {} line"
    using blacklist_line_http blacklist_line_https by blast
  with assms(1) show ?thesis
    unfolding load_blacklist_def by (simp add: blacklist_fold_member)
qed

lemma strip_example:
  "strip ([160, 32] @ codepoints ''https://a.org/x'' @ [8195, 133, 10]) =
     codepoints ''https://'' @ codepoints ''a.org/x''"
  by (simp add: strip_def isspace_def codepoints_def)

theorem load_blacklist_both_schemes_witness:
  "codepoints ''http://'' @ codepoints ''a.org/x''
     \<in> load_blacklist [codepoints ''http://b.org'' @ [10],
                        [160, 32] @ codepoints ''https://a.org/x'' @ [8195, 133, 10]] \<and>
   codepoints ''https://'' @ codepoints ''a.org/x''
     \<in> load_blacklist [codepoints ''http://b.org'' @ [10],
                        [160, 32] @ codepoints ''https://a.org/x'' @ [8195, 133, 10]]"
  using load_blacklist_both_schemes
    [of "[160, 32] @ codepoints ''https://a.org/x'' @ [8195, 133, 10]"
        "[codepoints ''http://b.org'' @ [10],
          [160, 32] @ codepoints ''https://a.org/x'' @ [8195, 133, 10]]"
        "codepoints ''a.org/x''"]
    strip_example
  by simp

subsection \<open>Division into a float\<close>

lemma bit_length_bounds:
  "0 < n \<Longrightarrow> 2 ^ (bit_length n - 1) \<le> n \<and> n < 2 ^ bit_length n"
proof (induction n rule: bit_length.induct)
  case (1 n)
  show ?case
  proof (cases "n div 2 = 0")
    case True
    with "1.prems" have "n = 1" by (auto simp: div_eq_0_iff)
    then show ?thesis by (simp add: bit_length.simps)
  next
    case False
    define p :: nat where "p = 2 ^ (bit_length (n div 2) - 1)"
    from False "1.IH" "1.prems" have ih: "p \<le> n div 2" "n div 2 < 2 ^ bit_length (n div 2)"
      by (auto simp: p_def)
    from False have pos: "0 < bit_length (n div 2)" by (simp add: bit_length.simps)
    then have two: "(2::nat) ^ bit_length (n div 2) = 2 * p"
      unfolding p_def by (cases "bit_length (n div 2)") simp_all
    have bl: "bit_length n = Suc (bit_length (n div 2))"
      using "1.prems" by (subst bit_length.simps) simp
    from ih two have "2 * p \<le> n" and "n < 2 * (2 * p)" by linarith+
    then show ?thesis unfolding bl by (simp add: two)
  qed
qed

lemma bit_length_pos: "0 < n \<Longrightarrow> 0 < bit_length n"
  by (subst bit_length.simps) simp

text \<open>The exponent is not above the quotient: \<open>2^e \<le> a / b\<close>.\<close>

lemma binary_exponent_lower:
  assumes "0 < a" and "0 < b"
  shows "if 0 \<le> binary_exponent a b then b * 2 ^ nat (binary_exponent a b) \<le> a
         else b \<le> a * 2 ^ nat (- binary_exponent a b)"
proof -
  define la where "la = bit_length a"
  define lb where "lb = bit_length b"
  define d where "d = int la - int lb"
  from bit_length_bounds [OF assms(1)] have a: "2 ^ (la - 1) \<le> a" by (simp add: la_def)
  from bit_length_bounds [OF assms(2)] have b: "b < 2 ^ lb" by (simp add: lb_def)
  have la: "0 < la" and lb: "0 < lb"
    using assms bit_length_pos by (simp_all add: la_def lb_def)
  define c where "c \<longleftrightarrow> (if 0 \<le> d then b * 2 ^ nat d \<le> a else b \<le> a * 2 ^ nat (- d))"
  have ed: "binary_exponent a b = (if c then d else d - 1)"
    by (simp only: binary_exponent_def Let_def d_def la_def lb_def c_def)
  show ?thesis
  proof (cases c)
    case True
    with ed have "binary_exponent a b = d" by simp
    with True show ?thesis unfolding c_def by simp
  next
    case False
    with ed have e: "binary_exponent a b = d - 1" by simp
    show ?thesis
    proof (cases "0 \<le> d - 1")
      case True
      then have n: "nat (d - 1) = la - lb - 1" and le: "lb + 1 \<le> la"
        by (simp_all add: d_def)
      have "b * 2 ^ (la - lb - 1) \<le> 2 ^ lb * 2 ^ (la - lb - 1)"
        using b by simp
      also have "\<dots> = 2 ^ (la - 1)"
        using le by (simp add: power_add [symmetric])
      finally show ?thesis using a e True n by simp
    next
      case False
      then have n: "nat (- (d - 1)) = lb + 1 - la" and le: "la \<le> lb"
        by (simp_all add: d_def)
      have "b \<le> 2 ^ (la - 1) * 2 ^ (lb + 1 - la)"
        using b le la by (simp add: power_add [symmetric])
      also have "\<dots> \<le> a * 2 ^ (lb + 1 - la)"
        using a by simp
      finally show ?thesis using e False n by simp
    qed
  qed
qed

lemma round_half_even_cases:
  "round_half_even n d = n div d \<or>
   (round_half_even n d = n div d + 1 \<and> d \<le> 2 * (n mod d))"
  by (auto simp: round_half_even_def Let_def)

lemma shifted_quotient:
  fixes a b k :: nat
  shows "(a * 2 ^ k) div b div 2 ^ k = a div b"
proof -
  have "(a * 2 ^ k) div b div 2 ^ k = (a * 2 ^ k) div (b * 2 ^ k)"
    by (simp add: div_mult2_eq)
  then show ?thesis by simp
qed

text \<open>
  When the significand is rounded up, the integer part stays the same as long as the
  divisor is below \<open>2^(k + 1)\<close>: the distance of \<open>a / b\<close> to the next integer is at
  least \<open>1 / b\<close>, more than half a unit of the last place.
\<close>

lemma rounded_up_same_quotient:
  fixes a b k :: nat
  assumes "0 < b" and "b < 2 * 2 ^ k" and "b \<le> 2 * ((a * 2 ^ k) mod b)"
  shows "((a * 2 ^ k) div b + 1) div 2 ^ k = a div b"
proof -
  define q where "q = (a * 2 ^ k) div b"
  define r where "r = (a * 2 ^ k) mod b"
  have n: "a * 2 ^ k = q * b + r" by (simp add: q_def r_def)
  have r: "r < b" using assms(1) by (simp add: r_def)
  have "Suc q mod 2 ^ k \<noteq> 0"
  proof
    assume "Suc q mod 2 ^ k = 0"
    then obtain j where j: "Suc q = 2 ^ k * j" by (auto simp: mod_eq_0_iff_dvd)
    have "a * 2 ^ k + (b - r) = Suc q * b"
      using n r by simp
    with j have eq: "a * 2 ^ k + (b - r) = 2 ^ k * (j * b)" by simp
    then have "2 ^ k dvd a * 2 ^ k + (b - r)" by simp
    moreover have "(2::nat) ^ k dvd a * 2 ^ k" by simp
    ultimately have "2 ^ k dvd (b - r)"
      using dvd_add_right_iff by blast
    moreover have "0 < b - r" using r by simp
    ultimately have "2 ^ k \<le> b - r" by (simp add: dvd_imp_le)
    moreover from assms(3) have "2 * (b - r) \<le> b" by (simp add: r_def)
    ultimately show False using assms(2) by linarith
  qed
  then have "Suc q div 2 ^ k = q div 2 ^ k" by (simp add: div_Suc)
  then show ?thesis using shifted_quotient [of a k b] by (simp add: q_def)
qed

lemma divisor_below_scale:
  assumes "0 < a" and "a < 2 ^ 53" and "0 < b" and "binary_exponent a b < 52"
  shows "b < 2 * 2 ^ nat (52 - binary_exponent a b)"
proof (cases "0 \<le> binary_exponent a b")
  case True
  define n where "n = nat (binary_exponent a b)"
  from True assms(4) have k: "nat (52 - binary_exponent a b) = 52 - n" and n: "n \<le> 52"
    by (simp_all add: n_def)
  from binary_exponent_lower [OF assms(1,3)] True have "b * 2 ^ n \<le> a" by (simp add: n_def)
  with assms(2) have "b * 2 ^ n < 2 ^ 53" by simp
  also have "(2::nat) ^ 53 = 2 * 2 ^ (52 - n) * 2 ^ n"
    using n by (simp add: power_add [symmetric])
  finally show ?thesis unfolding k by simp
next
  case False
  define n where "n = nat (- binary_exponent a b)"
  from False have k: "nat (52 - binary_exponent a b) = 52 + n"
    by (simp add: n_def)
  from binary_exponent_lower [OF assms(1,3)] False have "b \<le> a * 2 ^ n" by (simp add: n_def)
  also from assms(2) have "a * 2 ^ n < 2 ^ 53 * 2 ^ n" by simp
  also have "(2::nat) ^ 53 * 2 ^ n = 2 * 2 ^ (52 + n)" by (simp add: power_add)
  finally show ?thesis unfolding k .
qed

lemma round_at_exponent_52:
  assumes "a < 2 ^ 53"
  shows "round_at_exponent a 1 52 = Inr a"
proof -
  have "(2::nat) ^ 53 \<le> 2 ^ 1024" by (rule power_increasing) simp_all
  with assms have "\<not> (2::nat) ^ 1024 \<le> a" by linarith
  then show ?thesis
    by (simp add: round_at_exponent_def round_half_even_def)
qed

lemma round_at_exponent_below:
  assumes "0 < b" and "e < 52" and "b < 2 * 2 ^ nat (52 - e)"
  shows "round_at_exponent a b e = Inr (a div b)"
proof -
  define k where "k = nat (52 - e)"
  from assms(3) have bk: "b < 2 * 2 ^ k" by (simp add: k_def)
  have "round_half_even (a * 2 ^ k) b div 2 ^ k = a div b"
    using round_half_even_cases [of "a * 2 ^ k" b]
      rounded_up_same_quotient [OF assms(1) bk] shifted_quotient [of a k b]
    by auto
  with assms(2) show ?thesis
    by (simp add: round_at_exponent_def k_def [symmetric] Let_def)
qed

text \<open>Below \<open>2^53\<close> the float division followed by truncation is the integer division.\<close>

lemma float_div_trunc_exact:
  assumes "a < 2 ^ 53" and "0 < b"
  shows "float_div_trunc a b = Inr (a div b)"
proof (cases "a = 0")
  case True
  then show ?thesis by (simp add: float_div_trunc_def)
next
  case False
  then have a: "0 < a" by simp
  define e where "e = binary_exponent a b"
  from False have f: "float_div_trunc a b = round_at_exponent a b e"
    by (simp add: float_div_trunc_def e_def)
  show ?thesis
  proof (cases "52 \<le> e")
    case True
    then have en: "0 \<le> e" and n52: "52 \<le> nat e" by simp_all
    from binary_exponent_lower [OF a assms(2)] en have low: "b * 2 ^ nat e \<le> a"
      by (simp add: e_def)
    define P :: nat where "P = 2 ^ 52"
    have a53: "a < 2 * P" using assms(1) by (simp add: P_def)
    have "P \<le> 2 ^ nat e"
      unfolding P_def using n52 by (rule power_increasing) simp
    then have "b * P \<le> b * 2 ^ nat e" by (rule mult_le_mono2)
    with low a53 have "b * P < 2 * P" by linarith
    then have "b < 2" by (simp only: mult_less_cancel2)
    with assms(2) have b1: "b = 1" by simp
    have "\<not> 53 \<le> nat e"
    proof
      assume "53 \<le> nat e"
      then have "(2::nat) ^ 53 \<le> 2 ^ nat e" by (rule power_increasing) simp
      with low b1 assms(1) show False by simp
    qed
    with n52 have e52: "e = 52" by simp
    from f round_at_exponent_52 [OF assms(1)] show ?thesis
      unfolding b1 e52 by simp
  next
    case False
    then have lt: "e < 52" by simp
    from divisor_below_scale [OF a assms(1,2)] lt
    have "b < 2 * 2 ^ nat (52 - e)" by (simp add: e_def)
    from f round_at_exponent_below [OF assms(2) lt this] show ?thesis by simp
  qed
qed

lemma int_truediv_exact:
  assumes "0 \<le> c" and "c < 2 ^ 53" and "0 < S"
  shows "int_truediv c S = Inr (c div S)"
proof -
  from assms(1,2) have "nat c < 2 ^ 53" by (simp add: nat_less_iff)
  moreover from assms(3) have "0 < nat S" by simp
  ultimately have "float_div_trunc (nat c) (nat S) = Inr (nat c div nat S)"
    by (rule float_div_trunc_exact)
  moreover have "int (nat c div nat S) = c div S"
    using assms(1,3) by (simp add: zdiv_int)
  moreover have "sgn c * sgn S * (c div S) = c div S"
    using assms(1,3) by (cases "c = 0") simp_all
  ultimately show ?thesis
    using assms(1,3) by (simp add: int_truediv_def)
qed

lemmas float_div_eval =
  int_truediv_def float_div_trunc_def round_at_exponent_def binary_exponent_def
  round_half_even_def bit_length.simps Let_def

subsection \<open>The shard directory\<close>

text \<open>
  Claim C6, as amended. For a counter \<open>c\<close> with \<open>0 \<le> c < 2^53\<close> and a shard size
  \<open>S > 0\<close>, the subdirectory is the decimal numeral of \<open>\<lfloor>c / S\<rfloor> + 1\<close>; without a
  counter it is the empty string. The result is a function of the counter, the shard
  size and the directory alone, so repeated calls agree.
\<close>

theorem determine_counter_dir_shard:
  "(0 \<le> c \<and> c < 2 ^ 53 \<and> 0 < S \<longrightarrow>
      determine_counter_dir S dirname (Some c) = Inr (path_join dirname (str_int (c div S + 1))))
   \<and> determine_counter_dir S dirname None = Inr (path_join dirname '''')"
  by (simp add: determine_counter_dir_def int_truediv_exact)

theorem determine_counter_dir_shard_witness:
  "determine_counter_dir 200 ''out'' (Some 250) = Inr ''out/2'' \<and>
   determine_counter_dir 200 ''out'' None = Inr ''out/''"
proof -
  have "str_int (250 div 200 + 1) = ''2''"
    by (simp add: str_int_def str_nat.simps)
  then show ?thesis
    using determine_counter_dir_shard [of 250 200 "''out''"]
    by (simp add: path_join_def startswith_def endswith_def)
qed

text \<open>
  The claim as it is written, for every counter, fails at both ends. Below zero
  \<^verbatim>\<open>int\<close> truncates towards zero: the counter \<open>- 250\<close> with shard size 200 gives the
  directory \<open>0\<close>, where \<open>\<lfloor>c / S\<rfloor> + 1\<close> is \<open>- 1\<close>. From \<open>2^53\<close> on the float loses the
  last bits: the counter \<open>2^53 + 1\<close> with shard size 1 gives \<open>2^53 + 1\<close>, where
  \<open>\<lfloor>c / S\<rfloor> + 1\<close> is \<open>2^53 + 2\<close>.
\<close>

theorem determine_counter_dir_shard_counterexample:
  "determine_counter_dir 200 ''out'' (Some (- 250)) = Inr ''out/0''
   \<and> path_join ''out'' (str_int ((- 250) div 200 + 1)) = ''out/-1''
   \<and> determine_counter_dir 1 ''out'' (Some 9007199254740993) = Inr ''out/9007199254740993''
   \<and> path_join ''out'' (str_int (9007199254740993 div 1 + 1)) = ''out/9007199254740994''"
proof -
  have "int_truediv (- 250) 200 = Inr (- 1)"
    by (simp add: float_div_eval)
  moreover have "int_truediv 9007199254740993 1 = Inr 9007199254740992"
    by (simp add: float_div_eval)
  moreover have "str_int 0 = ''0''" and "str_int (- 1) = ''-1''"
    and "str_int 9007199254740993 = ''9007199254740993''"
    and "str_int 9007199254740994 = ''9007199254740994''"
    by (simp_all add: str_int_def str_nat.simps)
  ultimately show ?thesis
    by (simp add: determine_counter_dir_def path_join_def startswith_def endswith_def)
qed

subsection \<open>The backoff scheduler\<close>

lemma random_choice_member:
  "random_choice seq r = Inr x \<Longrightarrow> x \<in> set seq"
  by (auto simp: random_choice_def split: if_splits)

lemma random_choice_returns:
  "seq \<noteq> [] \<Longrightarrow> \<exists>x. random_choice seq r = Inr x"
  by (simp add: random_choice_def)

lemma chosen_queue:
  assumes "random_choice (map fst dd) r = Inr domain" and "queues_nonempty dd"
  shows "\<exists>q. map_of dd domain = Some q \<and> q \<noteq> []"
proof -
  from assms(1) have "domain \<in> fst ` set dd"
    using random_choice_member by fastforce
  then obtain q where q: "map_of dd domain = Some q"
    by (metis map_of_eq_None_iff not_Some_eq)
  then have "(domain, q) \<in> set dd" by (rule map_of_SomeD)
  with assms(2) have "q \<noteq> []" by (auto simp: queues_nonempty_def)
  with q show ?thesis by blast
qed

text \<open>
  Claim C4. On a queue whose domains all have a pending URL the draw returns, and its
  stall counter is as follows. When the chosen domain has a registry entry less than
  \<open>sleeptime\<close> old, the counter is incremented; if it thereby reaches three times the
  number of domains in the queue, \<^verbatim>\<open>sleep(sleeptime)\<close> is called once and the counter
  is reset to 0. When the domain is not inside its window the counter is returned as
  it came, and there is no pause.
\<close>

theorem draw_backoff_url_stall_counter:
  assumes "queues_nonempty dd"
    and "random_choice (map fst dd) r = Inr domain"
  shows "\<exists>url dd' bd'.
           draw_backoff_url dd bd sleeptime i (r, now_check, now_dispatch) =
             Inr (url, dd', bd',
                  (if inside_window bd domain now_check sleeptime
                   then (if i + 1 \<ge> 3 * int (length dd) then 0 else i + 1)
                   else i),
                  (inside_window bd domain now_check sleeptime \<and> i + 1 \<ge> 3 * int (length dd)))"
proof -
  from chosen_queue [OF assms(2) assms(1)]
  obtain q where "map_of dd domain = Some q" and "q \<noteq> []" by blast
  with assms(2) show ?thesis
    by (simp add: draw_backoff_url_def Let_def mult.commute)
qed


lemma set_delete_subset: "set (AList.delete k al) \<subseteq> set al"
  by (auto simp: AList.delete_eq)

lemma set_update_cases:
  "p \<in> set (AList.update k v al) \<Longrightarrow> p = (k, v) \<or> p \<in> set al"
  by (induction al) (auto split: if_splits)

lemma queues_nonempty_delete: "queues_nonempty dd \<Longrightarrow> queues_nonempty (AList.delete k dd)"
  using set_delete_subset [of k dd] by (auto simp: queues_nonempty_def)

lemma queues_nonempty_update:
  "queues_nonempty dd \<Longrightarrow> q \<noteq> [] \<Longrightarrow> queues_nonempty (AList.update k q dd)"
  unfolding queues_nonempty_def using set_update_cases [of _ k q dd] by fastforce

lemma registry_ok_delete:
  assumes "registry_ok dd bd"
  shows "registry_ok (AList.delete k dd) (AList.delete k bd)"
  unfolding registry_ok_def
proof
  fix d
  assume d: "d \<in> fst ` set (AList.delete k bd)"
  then have "d \<noteq> k"
    using AList.delete_notin_dom [of k bd] by blast
  moreover from d have "d \<in> fst ` set bd"
    using AList.dom_delete_subset [of k bd] by blast
  ultimately show "\<exists>q. map_of (AList.delete k dd) d = Some q \<and> q \<noteq> []"
    using assms by (auto simp: registry_ok_def AList.delete_conv)
qed

lemma registry_ok_update:
  "registry_ok dd bd \<Longrightarrow> q \<noteq> [] \<Longrightarrow> registry_ok (AList.update k q dd) (AList.update k t bd)"
  unfolding registry_ok_def
  by (auto simp: AList.update_conv' AList.dom_update)

lemma draw_step:
  assumes "queues_nonempty dd"
    and "random_choice (map fst dd) r = Inr domain"
  shows "\<exists>q. map_of dd domain = Some q \<and> q \<noteq> [] \<and>
           draw_backoff_url dd bd sleeptime i (r, now_check, now_dispatch) =
             Inr (last q,
                  (if butlast q = [] then AList.delete domain dd
                   else AList.update domain (butlast q) dd),
                  (if butlast q = [] then AList.delete domain bd
                   else AList.update domain now_dispatch bd),
                  (if inside_window bd domain now_check sleeptime
                   then (if i + 1 \<ge> 3 * int (length dd) then 0 else i + 1)
                   else i),
                  (inside_window bd domain now_check sleeptime \<and> i + 1 \<ge> 3 * int (length dd)))"
proof -
  from chosen_queue [OF assms(2) assms(1)]
  obtain q where "map_of dd domain = Some q" and "q \<noteq> []" by blast
  with assms(2) show ?thesis
    by (simp add: draw_backoff_url_def Let_def mult.commute)
qed

lemma draw_returns_cases:
  assumes "draw_backoff_url dd bd sleeptime i orc = Inr (url, dd', bd', i', slept)"
  shows "\<exists>domain q. map_of dd domain = Some q \<and> q \<noteq> [] \<and> url = last q \<and>
     (if butlast q = [] then dd' = AList.delete domain dd \<and> bd' = AList.delete domain bd
      else dd' = AList.update domain (butlast q) dd
           \<and> bd' = AList.update domain (snd (snd orc)) bd)"
  using assms
  by (cases orc)
     (auto simp: draw_backoff_url_def Let_def split: sum.splits option.splits if_splits prod.splits)

lemma draw_preserves:
  assumes "draw_backoff_url dd bd sleeptime i orc = Inr (url, dd', bd', i', slept)"
    and "queues_nonempty dd"
  shows "queues_nonempty dd'" and "registry_ok dd bd \<Longrightarrow> registry_ok dd' bd'"
proof -
  from draw_returns_cases [OF assms(1)] obtain domain q where q: "q \<noteq> []"
    and c: "if butlast q = [] then dd' = AList.delete domain dd \<and> bd' = AList.delete domain bd
      else dd' = AList.update domain (butlast q) dd
           \<and> bd' = AList.update domain (snd (snd orc)) bd"
    by blast
  show "queues_nonempty dd'"
    using c assms(2) queues_nonempty_delete queues_nonempty_update
    by (cases "butlast q = []") auto
  show "registry_ok dd bd \<Longrightarrow> registry_ok dd' bd'"
    using c registry_ok_delete registry_ok_update
    by (cases "butlast q = []") auto
qed

lemma draw_many_preserves:
  "draw_many os sleeptime dd bd i = Inr (dd', bd', i') \<Longrightarrow> queues_nonempty dd \<Longrightarrow>
   registry_ok dd bd \<Longrightarrow> queues_nonempty dd' \<and> registry_ok dd' bd'"
proof (induction os arbitrary: dd bd i)
  case Nil
  then show ?case by simp
next
  case (Cons orc os)
  from Cons.prems(1) obtain url dd1 bd1 i1 slept
    where step: "draw_backoff_url dd bd sleeptime i orc = Inr (url, dd1, bd1, i1, slept)"
      and rest: "draw_many os sleeptime dd1 bd1 i1 = Inr (dd', bd', i')"
    by (auto split: sum.splits)
  from draw_preserves [OF step Cons.prems(2)] Cons.prems(3)
  have "queues_nonempty dd1" and "registry_ok dd1 bd1" by auto
  with Cons.IH [OF rest] show ?case by simp
qed

text \<open>
  Claim C5. After a draw: if the drawn URL was the only pending URL of the chosen
  domain, the domain is in neither dictionary; otherwise its registry entry is the
  clock reading of this dispatch. A draw keeps the invariant that every domain of the
  registry has a non-empty queue, and so does every sequence of draws; the executors
  start from the empty registry, for which it holds.
\<close>

theorem draw_backoff_url_registry:
  "(queues_nonempty dd \<and> random_choice (map fst dd) r = Inr domain \<longrightarrow>
      (\<exists>url dd' bd' i' slept.
         draw_backoff_url dd bd sleeptime i (r, now_check, now_dispatch) =
           Inr (url, dd', bd', i', slept) \<and>
         (if map_of dd domain = Some [url]
          then domain \<notin> fst ` set dd' \<and> domain \<notin> fst ` set bd'
          else map_of bd' domain = Some now_dispatch) \<and>
         (registry_ok dd bd \<longrightarrow> registry_ok dd' bd')))
   \<and> (queues_nonempty dd \<and> registry_ok dd bd \<and>
        draw_many orcs sleeptime dd bd i = Inr (dd'', bd'', i'') \<longrightarrow> registry_ok dd'' bd'')
   \<and> registry_ok dd []"
proof (intro conjI impI)
  assume a: "queues_nonempty dd \<and> random_choice (map fst dd) r = Inr domain"
  from draw_step [of dd r domain bd sleeptime i now_check now_dispatch] a
  obtain q where q: "map_of dd domain = Some q" "q \<noteq> []"
    and d: "draw_backoff_url dd bd sleeptime i (r, now_check, now_dispatch) =
             Inr (last q,
                  (if butlast q = [] then AList.delete domain dd
                   else AList.update domain (butlast q) dd),
                  (if butlast q = [] then AList.delete domain bd
                   else AList.update domain now_dispatch bd),
                  (if inside_window bd domain now_check sleeptime
                   then (if i + 1 \<ge> 3 * int (length dd) then 0 else i + 1)
                   else i),
                  (inside_window bd domain now_check sleeptime \<and> i + 1 \<ge> 3 * int (length dd)))"
    by blast
  have single: "q = [last q] \<longleftrightarrow> butlast q = []"
    using q(2) by (metis append_butlast_last_id append_Nil butlast.simps(2))
  have post: "if map_of dd domain = Some [last q]
          then domain \<notin> fst ` set (if butlast q = [] then AList.delete domain dd
                   else AList.update domain (butlast q) dd)
             \<and> domain \<notin> fst ` set (if butlast q = [] then AList.delete domain bd
                   else AList.update domain now_dispatch bd)
          else map_of (if butlast q = [] then AList.delete domain bd
                   else AList.update domain now_dispatch bd) domain = Some now_dispatch"
    using q single by (auto simp: AList.delete_eq AList.update_conv')
  from draw_preserves(2) [OF d] a
  have "registry_ok dd bd \<longrightarrow> registry_ok
          (if butlast q = [] then AList.delete domain dd else AList.update domain (butlast q) dd)
          (if butlast q = [] then AList.delete domain bd else AList.update domain now_dispatch bd)"
    by blast
  with d post show "\<exists>url dd' bd' i' slept.
         draw_backoff_url dd bd sleeptime i (r, now_check, now_dispatch) =
           Inr (url, dd', bd', i', slept) \<and>
         (if map_of dd domain = Some [url]
          then domain \<notin> fst ` set dd' \<and> domain \<notin> fst ` set bd'
          else map_of bd' domain = Some now_dispatch) \<and>
         (registry_ok dd bd \<longrightarrow> registry_ok dd' bd')"
    by blast
next
  assume "queues_nonempty dd \<and> registry_ok dd bd \<and>
        draw_many orcs sleeptime dd bd i = Inr (dd'', bd'', i'')"
  then show "registry_ok dd'' bd''"
    using draw_many_preserves by blast
next
  show "registry_ok dd []"
    by (simp add: registry_ok_def)
qed


theorem draw_backoff_url_stall_counter_witness:
  "queues_nonempty [(''a.com'', [''http://a.com/1'', ''http://a.com/2'']), (''b.com'', [''http://b.com/1''])] \<and>
   random_choice (map fst [(''a.com'', [''http://a.com/1'', ''http://a.com/2'']), (''b.com'', [''http://b.com/1''])]) 0
     = Inr ''a.com'' \<and>
   inside_window [(''a.com'', 100)] ''a.com'' 101 10 \<and>
   (\<exists>url dd' bd'.
      draw_backoff_url [(''a.com'', [''http://a.com/1'', ''http://a.com/2'']), (''b.com'', [''http://b.com/1''])]
        [(''a.com'', 100)] 10 5 (0, 101, 102) = Inr (url, dd', bd', 0, True))"
  using draw_backoff_url_stall_counter
    [of "[(''a.com'', [''http://a.com/1'', ''http://a.com/2'']), (''b.com'', [''http://b.com/1''])]"
        0 "''a.com''" "[(''a.com'', 100)]" 10 5 101 102]
  by (simp add: queues_nonempty_def random_choice_def inside_window_def)

theorem draw_backoff_url_registry_witness:
  "queues_nonempty [(''a.com'', [''http://a.com/1'']), (''b.com'', [''http://b.com/1''])] \<and>
   random_choice (map fst [(''a.com'', [''http://a.com/1'']), (''b.com'', [''http://b.com/1''])]) 2
     = Inr ''a.com'' \<and>
   registry_ok [(''a.com'', [''http://a.com/1'']), (''b.com'', [''http://b.com/1''])] [(''a.com'', 100)] \<and>
   (\<exists>url dd' bd' i' slept.
      draw_backoff_url [(''a.com'', [''http://a.com/1'']), (''b.com'', [''http://b.com/1''])]
        [(''a.com'', 100)] 10 0 (2, 120, 121) = Inr (url, dd', bd', i', slept) \<and>
      ''a.com'' \<notin> fst ` set dd' \<and> ''a.com'' \<notin> fst ` set bd' \<and> registry_ok dd' bd')"
proof -
  have d: "draw_backoff_url [(''a.com'', [''http://a.com/1'']), (''b.com'', [''http://b.com/1''])]
        [(''a.com'', 100)] 10 0 (2, 120, 121) =
        Inr (''http://a.com/1'', [(''b.com'', [''http://b.com/1''])], [], 0, False)"
    by code_simp
  have h: "queues_nonempty [(''a.com'', [''http://a.com/1'']), (''b.com'', [''http://b.com/1''])] \<and>
    random_choice (map fst [(''a.com'', [''http://a.com/1'']), (''b.com'', [''http://b.com/1''])]) 2
     = Inr ''a.com'' \<and>
    registry_ok [(''a.com'', [''http://a.com/1'']), (''b.com'', [''http://b.com/1''])] [(''a.com'', 100)]"
    by (simp add: queues_nonempty_def random_choice_def registry_ok_def numeral_2_eq_2 [symmetric])
  from draw_backoff_url_registry
    [of "[(''a.com'', [''http://a.com/1'']), (''b.com'', [''http://b.com/1''])]"
        2 "''a.com''" "[(''a.com'', 100)]" 10 0 120 121] h d
  show ?thesis by simp
qed

text \<open>
  Claim C2, as amended. When a draw picks the domain of the draw before it and less
  than \<open>sleeptime\<close> has passed since that dispatch, the draw is made all the same: the
  stall counter is incremented, and the scheduler pauses first exactly when the
  incremented counter reaches three times the number of domains in the queue.
\<close>

theorem draw_backoff_url_consecutive:
  assumes "queues_nonempty dd"
    and "random_choice (map fst dd) r = Inr domain"
    and "draw_backoff_url dd bd sleeptime i (r, now_check, now_dispatch) =
           Inr (url, dd1, bd1, i1, slept1)"
    and "random_choice (map fst dd1) r' = Inr domain"
    and "now_check' - now_dispatch < sleeptime"
  shows "\<exists>url' dd2 bd2.
           draw_backoff_url dd1 bd1 sleeptime i1 (r', now_check', now_dispatch') =
             Inr (url', dd2, bd2,
                  (if i1 + 1 \<ge> 3 * int (length dd1) then 0 else i1 + 1),
                  (i1 + 1 \<ge> 3 * int (length dd1)))"
proof -
  from draw_step [OF assms(1,2), of bd sleeptime i now_check now_dispatch] assms(3)
  obtain q where dd1: "dd1 = (if butlast q = [] then AList.delete domain dd
                   else AList.update domain (butlast q) dd)"
    and bd1: "bd1 = (if butlast q = [] then AList.delete domain bd
                   else AList.update domain now_dispatch bd)"
    by auto
  from assms(4) have "domain \<in> fst ` set dd1"
    using random_choice_member by fastforce
  with dd1 have "butlast q \<noteq> []"
    using AList.delete_notin_dom [of domain dd] by auto
  with bd1 have "map_of bd1 domain = Some now_dispatch"
    by (simp add: AList.update_conv')
  with assms(5) have w: "inside_window bd1 domain now_check' sleeptime"
    by (simp add: inside_window_def)
  have "queues_nonempty dd1"
    using draw_preserves(1) [OF assms(3) assms(1)] .
  from draw_step [OF this assms(4), of bd1 sleeptime i1 now_check' now_dispatch'] w
  show ?thesis by auto
qed

text \<open>
  The claim as it is written fails: with a politeness interval of 10, the domain
  \<open>a.com\<close> is dispatched at time 100 and again at time 101, and neither draw pauses.
\<close>

theorem draw_backoff_url_consecutive_counterexample:
  "draw_backoff_url
     [(''a.com'', [''http://a.com/1'', ''http://a.com/2'', ''http://a.com/3'']),
      (''b.com'', [''http://b.com/1''])] [] 10 0 (0, 100, 100)
   = Inr (''http://a.com/3'',
          [(''a.com'', [''http://a.com/1'', ''http://a.com/2'']), (''b.com'', [''http://b.com/1''])],
          [(''a.com'', 100)], 0, False)
   \<and> draw_backoff_url
     [(''a.com'', [''http://a.com/1'', ''http://a.com/2'']), (''b.com'', [''http://b.com/1''])]
     [(''a.com'', 100)] 10 0 (0, 101, 101)
   = Inr (''http://a.com/2'',
          [(''a.com'', [''http://a.com/1'']), (''b.com'', [''http://b.com/1''])],
          [(''a.com'', 101)], 1, False)
   \<and> (101 :: int) - 100 < 10"
  by (simp add: draw_backoff_url_def random_choice_def inside_window_def)

theorem draw_backoff_url_consecutive_witness:
  "\<exists>url' dd2 bd2.
     draw_backoff_url
       [(''a.com'', [''http://a.com/1'', ''http://a.com/2'']), (''b.com'', [''http://b.com/1''])]
       [(''a.com'', 100)] 10 5 (0, 101, 101) = Inr (url', dd2, bd2, 0, True)"
proof -
  have first: "draw_backoff_url
     [(''a.com'', [''http://a.com/1'', ''http://a.com/2'', ''http://a.com/3'']),
      (''b.com'', [''http://b.com/1''])] [] 10 5 (0, 100, 100)
   = Inr (''http://a.com/3'',
          [(''a.com'', [''http://a.com/1'', ''http://a.com/2'']), (''b.com'', [''http://b.com/1''])],
          [(''a.com'', 100)], 5, False)"
    by (simp add: draw_backoff_url_def random_choice_def inside_window_def)
  have q: "queues_nonempty [(''a.com'', [''http://a.com/1'', ''http://a.com/2'', ''http://a.com/3'']),
      (''b.com'', [''http://b.com/1''])]"
    by (simp add: queues_nonempty_def)
  have c1: "random_choice (map fst [(''a.com'', [''http://a.com/1'', ''http://a.com/2'', ''http://a.com/3'']),
      (''b.com'', [''http://b.com/1''])]) 0 = Inr ''a.com''"
    by (simp add: random_choice_def)
  have c2: "random_choice (map fst [(''a.com'', [''http://a.com/1'', ''http://a.com/2'']),
      (''b.com'', [''http://b.com/1''])]) 0 = Inr ''a.com''"
    by (simp add: random_choice_def)
  have t: "(101 :: int) - 100 < 10" by simp
  from draw_backoff_url_consecutive [OF q c1 first c2 t, of 101]
  show ?thesis by simp
qed

subsection \<open>The per-document safety check\<close>

text \<open>
  Claim C9. A document that is \<^verbatim>\<open>None\<close>, larger than the maximum or smaller than the
  minimum makes \<open>examine\<close> return \<^verbatim>\<open>None\<close>; the only change of the world is one line
  on the diagnostic stream, so the extractor has not been called and no file has been
  written; and \<open>write_result\<close> on that result returns with the world as it is.
\<close>

theorem examine_rejects_before_extract:
  assumes "htmlstring = None \<or>
           (\<exists>html. htmlstring = Some html \<and>
              (int (length html) > MAX_FILE_SIZE e \<or> int (length html) < MIN_FILE_SIZE e))"
  shows "\<exists>msg w'.
           examine e htmlstring a url w = (None, w') \<and>
           w' = w\<lparr>stderr := stderr w @ [msg @ newline]\<rparr> \<and>
           msg \<in> {''ERROR: empty document'', ''ERROR: file too large'', ''ERROR: file too small''} \<and>
           extract_calls w' = extract_calls w \<and>
           written w' = written w \<and>
           write_result e None a orig_filename counter new_filename w' = Inr w'"
proof (cases htmlstring)
  case None
  then have "examine e htmlstring a url w =
      (None, w\<lparr>stderr := stderr w @ [''ERROR: empty document'' @ newline]\<rparr>)"
    by (simp add: examine_def)
  then show ?thesis
    apply (intro exI [of _ "''ERROR: empty document''"])
    apply (rule exI [of _ "w\<lparr>stderr := stderr w @ [''ERROR: empty document'' @ newline]\<rparr>"])
    apply (simp add: write_result_def)
    done
next
  case (Some html)
  with assms have c: "int (length html) > MAX_FILE_SIZE e \<or> int (length html) < MIN_FILE_SIZE e"
    by simp
  show ?thesis
  proof (cases "int (length html) > MAX_FILE_SIZE e")
    case True
    with Some have "examine e htmlstring a url w =
        (None, w\<lparr>stderr := stderr w @ [''ERROR: file too large'' @ newline]\<rparr>)"
      by (simp add: examine_def)
    then show ?thesis
      apply (intro exI [of _ "''ERROR: file too large''"])
      apply (rule exI [of _ "w\<lparr>stderr := stderr w @ [''ERROR: file too large'' @ newline]\<rparr>"])
      apply (simp add: write_result_def)
      done
  next
    case False
    with c Some have "examine e htmlstring a url w =
        (None, w\<lparr>stderr := stderr w @ [''ERROR: file too small'' @ newline]\<rparr>)"
      by (simp add: examine_def)
    then show ?thesis
      apply (intro exI [of _ "''ERROR: file too small''"])
      apply (rule exI [of _ "w\<lparr>stderr := stderr w @ [''ERROR: file too small'' @ newline]\<rparr>"])
      apply (simp add: write_result_def)
      done
  qed
qed

theorem examine_rejects_before_extract_witness:
  "int (length ''<html>'') < MIN_FILE_SIZE stub_env \<and>
   (\<exists>msg w'.
      examine stub_env (Some ''<html>'') stub_args None empty_world = (None, w') \<and>
      w' = empty_world\<lparr>stderr := stderr empty_world @ [msg @ newline]\<rparr> \<and>
      extract_calls w' = [] \<and> written w' = [] \<and>
      write_result stub_env None stub_args (Some ''page.html'') None None w' = Inr w')"
proof -
  have h: "int (length ''<html>'') < MIN_FILE_SIZE stub_env"
    by (simp add: stub_env_def)
  have w: "extract_calls empty_world = [] \<and> written empty_world = []"
    by (simp add: empty_world_def)
  from h examine_rejects_before_extract
    [of "Some ''<html>''" stub_env stub_args None empty_world "Some ''page.html''" None None] w
  show ?thesis by auto
qed

subsection \<open>The counter of the URL pipeline\<close>

lemma domain_partition_drains: "fst (domain_partition e input_urls domain_dict) = []"
proof (induction e input_urls domain_dict rule: domain_partition.induct)
  case (1 e input_urls domain_dict)
  show ?case
  proof (cases "input_urls = []")
    case True
    then show ?thesis by (simp add: domain_partition.simps)
  next
    case False
    from "1.IH" [OF False refl refl refl refl refl] False show ?thesis
      by (subst domain_partition.simps) (simp add: Let_def)
  qed
qed

lemma process_result_keeps_None:
  "process_result e htmlstring a url None w = Inr (counter, w') \<Longrightarrow> counter = None"
  by (auto simp: process_result_def split: sum.splits if_splits prod.splits)

lemma single_loop_keeps_None:
  "single_loop e a sleeptime dd bd i errors counter w = Inr ((errors', counter'), w') \<Longrightarrow>
   counter = None \<Longrightarrow> counter' = None"
proof (induction e a sleeptime dd bd i errors counter w rule: single_loop.induct)
  case (1 e a sleeptime dd bd i errors counter w)
  show ?case
  proof (cases "dd = []")
    case True
    with "1.prems" show ?thesis by (simp add: single_loop.simps)
  next
    case False
    with "1.prems"(1) obtain url dd1 bd1 i1 slept
      where d: "draw_backoff_url dd bd sleeptime i (draw_source e (draws_made w)) =
                  Inr (url, dd1, bd1, i1, slept)"
      by (subst (asm) single_loop.simps) (auto split: sum.splits)
    define w1 where "w1 = w\<lparr>draws_made := Suc (draws_made w), fetches := fetches w @ [[url]]\<rparr>"
    show ?thesis
    proof (cases "fetch_url e url")
      case None
      with "1.prems"(1) False d
      have "single_loop e a sleeptime dd1 bd1 i1 (errors @ [url]) counter w1 =
              Inr ((errors', counter'), w')"
        by (subst (asm) single_loop.simps) (simp add: w1_def)
      from "1.IH"(1) [OF False d refl refl refl refl w1_def None this "1.prems"(2)]
      show ?thesis .
    next
      case (Some htmlstring)
      with "1.prems"(1) False d obtain c2 w2
        where p: "process_result e htmlstring a url counter w1 = Inr (c2, w2)"
          and r: "single_loop e a sleeptime dd1 bd1 i1 errors c2 w2 = Inr ((errors', counter'), w')"
        by (subst (asm) single_loop.simps) (auto simp: w1_def split: sum.splits)
      from p "1.prems"(2) have "c2 = None" using process_result_keeps_None by blast
      from "1.IH"(2) [OF False d refl refl refl refl w1_def Some p refl r this]
      show ?thesis .
    qed
  qed
qed

text \<open>
  Claim C10. The counter is initialised from the length of the list of URLs after the
  partitioning loop has emptied it, so it is \<^verbatim>\<open>None\<close> for every input (the shard size
  is not negative); and the sequential executor, started without a counter, ends
  without one.
\<close>

theorem url_pipeline_counter_is_None:
  assumes "0 \<le> MAX_FILES_PER_DIRECTORY e"
  shows "snd (build_processing_list e input_urls) = None \<and>
         (\<forall>bd a sleeptime w errors counter w'.
            single_threaded_processing e (fst (build_processing_list e input_urls)) bd a sleeptime
              (snd (build_processing_list e input_urls)) w = Inr ((errors, counter), w')
            \<longrightarrow> counter = None)"
proof -
  have "fst (domain_partition e input_urls []) = []"
    by (rule domain_partition_drains)
  with assms have n: "snd (build_processing_list e input_urls) = None"
    by (simp add: build_processing_list_def case_prod_beta Let_def)
  then show ?thesis
    using single_loop_keeps_None unfolding single_threaded_processing_def by blast
qed

theorem url_pipeline_counter_is_None_witness:
  "build_processing_list (stub_env\<lparr>MAX_FILES_PER_DIRECTORY := 2\<rparr>)
     [''http://a.com/1'', ''http://a.com/2'', ''http://b.com/1'']
   = ([(''b.com'', [''http://b.com/1'']), (''a.com'', [''http://a.com/2'', ''http://a.com/1''])], None)"
proof -
  have "0 \<le> MAX_FILES_PER_DIRECTORY (stub_env\<lparr>MAX_FILES_PER_DIRECTORY := 2\<rparr>)"
    by simp
  from url_pipeline_counter_is_None [OF this, of "[''http://a.com/1'', ''http://a.com/2'', ''http://b.com/1'']"]
  have "snd (build_processing_list (stub_env\<lparr>MAX_FILES_PER_DIRECTORY := 2\<rparr>)
     [''http://a.com/1'', ''http://a.com/2'', ''http://b.com/1'']) = None"
    by blast
  moreover have "fst (build_processing_list (stub_env\<lparr>MAX_FILES_PER_DIRECTORY := 2\<rparr>)
     [''http://a.com/1'', ''http://a.com/2'', ''http://b.com/1''])
     = [(''b.com'', [''http://b.com/1'']), (''a.com'', [''http://a.com/2'', ''http://a.com/1''])]"
    by code_simp
  ultimately show ?thesis by (simp add: prod_eq_iff)
qed

subsection \<open>The rounds of the file pipeline\<close>

lemma file_batches_below:
  "int (length filebatch) + int (length files) \<le> max_files \<Longrightarrow>
   file_batches cores max_files files filebatch filecounter dispatched =
     Inr (filebatch @ files, filecounter, dispatched)"
  by (induction files arbitrary: filebatch) simp_all

lemma file_batches_dispatch:
  "1 \<le> cores \<Longrightarrow> int (length filebatch) + int (length files) = max_files \<Longrightarrow>
   file_batches cores max_files (files @ filename # rest) filebatch filecounter dispatched =
     file_batches cores max_files rest []
       (Some ((case filecounter of None \<Rightarrow> 0 | Some c \<Rightarrow> c) + (max_files + 1)))
       (dispatched @
          [(Some (case filecounter of None \<Rightarrow> 0 | Some c \<Rightarrow> c), filebatch @ files @ [filename])])"
  by (induction files arbitrary: filebatch) (simp_all add: Let_def add.commute)

text \<open>
  Claim C8, as the code runs it. With shard size 200 a walk of 250 files gives two
  dispatches: the first holds 201 files (the batch is dispatched when it is larger
  than the shard size) and carries the counter 0, the second holds the other 49 and
  carries the counter 250; their shard directories are \<open>1\<close> and \<open>2\<close>.
\<close>

theorem file_pipeline_250_files:
  assumes "MAX_FILES_PER_DIRECTORY e = 200"
    and "length (generate_filelist e (inputdir a)) = 250"
    and "parallel a = None" and "1 \<le> FILE_PROCESSING_CORES e"
  shows "file_processing_pipeline e a =
           Inr [(Some 0, take 201 (generate_filelist e (inputdir a))),
                (Some 250, drop 201 (generate_filelist e (inputdir a)))]
         \<and> determine_counter_dir (MAX_FILES_PER_DIRECTORY e) dirname (Some 0)
             = Inr (path_join dirname ''1'')
         \<and> determine_counter_dir (MAX_FILES_PER_DIRECTORY e) dirname (Some 250)
             = Inr (path_join dirname ''2'')"
proof -
  define files where "files = generate_filelist e (inputdir a)"
  define first where "first = take 200 files"
  define rest where "rest = drop 201 files"
  from assms(2) have len: "length files = 250" by (simp add: files_def)
  then have split: "files = first @ files ! 200 # rest"
    unfolding first_def rest_def using id_take_nth_drop [of 200 files] by simp
  from len have lf: "length first = 200" and lr: "length rest = 49"
    by (simp_all add: first_def rest_def)
  from len have t: "take 201 files = first @ [files ! 200]"
    unfolding first_def by (simp add: take_Suc_conv_app_nth [of 200 files, simplified])
  have "file_batches (FILE_PROCESSING_CORES e) 200 (first @ files ! 200 # rest) [] None [] =
          file_batches (FILE_PROCESSING_CORES e) 200 rest [] (Some 201)
            [(Some 0, first @ [files ! 200])]"
    using file_batches_dispatch [OF assms(4), of "[]" first 200 "files ! 200" rest None "[]"] lf
    by simp
  also have "\<dots> = Inr (rest, Some 201, [(Some 0, first @ [files ! 200])])"
    using file_batches_below [of "[]" rest 200 "FILE_PROCESSING_CORES e" "Some 201"] lr by simp
  finally have "file_batches (FILE_PROCESSING_CORES e) 200 files [] None [] =
      Inr (rest, Some 201, [(Some 0, take 201 files)])"
    using split t by simp
  with assms(1,3,4) lr have "file_processing_pipeline e a =
      Inr [(Some 0, take 201 files), (Some 250, rest)]"
    by (simp add: file_processing_pipeline_def files_def [symmetric])
  moreover have "str_int 1 = ''1''" and "str_int 2 = ''2''"
    by (simp_all add: str_int_def str_nat.simps)
  moreover have "int_truediv 0 200 = Inr 0" and "int_truediv 250 200 = Inr 1"
    by (simp_all add: int_truediv_exact)
  ultimately show ?thesis
    using assms(1) by (simp add: files_def rest_def determine_counter_dir_def)
qed

theorem file_pipeline_250_files_witness:
  "file_processing_pipeline stub_env stub_args =
     Inr [(Some 0, take 201 (generate_filelist stub_env ''in'')),
          (Some 250, drop 201 (generate_filelist stub_env ''in''))]
   \<and> length (take 201 (generate_filelist stub_env ''in'')) = 201
   \<and> length (drop 201 (generate_filelist stub_env ''in'')) = 49"
proof -
  have "MAX_FILES_PER_DIRECTORY stub_env = 200"
    and "length (generate_filelist stub_env (inputdir stub_args)) = 250"
    and "parallel stub_args = None" and "1 \<le> FILE_PROCESSING_CORES stub_env"
    and "inputdir stub_args = ''in''"
    by (simp_all add: stub_env_def stub_args_def)
  with file_pipeline_250_files [of stub_env stub_args "''out''"]
  show ?thesis by simp
qed

subsection \<open>The fallback of the concurrent executor\<close>

text \<open>
  Claim C1, as amended. At the top of every iteration of the loop (whatever the
  registry, the stall counter and the errors collected so far), if the number of
  distinct URLs left in the queue is smaller than the number of threads, the result is
  the result of the sequential executor on the queue and the registry.
\<close>

theorem multi_loop_delegates:
  assumes "domain_dict \<noteq> []"
    and "int (length (remdups (concat (map snd domain_dict)))) < download_threads"
  shows "multi_loop e a sleeptime download_threads domain_dict backoff_dict i errors counter w =
           single_threaded_processing e domain_dict backoff_dict a sleeptime counter w"
  using assms by (subst multi_loop.simps) simp

theorem multi_loop_delegates_witness:
  "multi_loop stub_env stub_args 0 3
     [(''a.com'', [''http://a.com/1'']), (''b.com'', [''http://b.com/1''])] [(''a.com'', 7)] 2
     [''http://c.com/1''] None empty_world =
   single_threaded_processing stub_env
     [(''a.com'', [''http://a.com/1'']), (''b.com'', [''http://b.com/1''])] [(''a.com'', 7)]
     stub_args 0 None empty_world"
  using multi_loop_delegates
    [of "[(''a.com'', [''http://a.com/1'']), (''b.com'', [''http://b.com/1''])]" 3
        stub_env stub_args 0 "[(''a.com'', 7)]" 2 "[''http://c.com/1'']" None empty_world]
  by simp

text \<open>
  The claim as it is written fails: with two domains of two URLs each and three
  threads, the number of domains is smaller than the number of threads, but the
  executor fetches a batch of three before it hands the last URL to the sequential
  executor.
\<close>

theorem multi_threaded_domain_count_counterexample:
  "int (length [(''a.com'', [''http://a.com/1'', ''http://a.com/2'']),
                (''b.com'', [''http://b.com/1'', ''http://b.com/2''])]) < 3
   \<and> multi_threaded_processing
       (stub_env\<lparr>fetch_url := (\<lambda>url. Some ''<html><body>page</body></html>'')\<rparr>)
       [(''a.com'', [''http://a.com/1'', ''http://a.com/2'']),
        (''b.com'', [''http://b.com/1'', ''http://b.com/2''])]
       (stub_args\<lparr>parallel := Some 3\<rparr>) 0 None empty_world
     \<noteq> single_threaded_processing
       (stub_env\<lparr>fetch_url := (\<lambda>url. Some ''<html><body>page</body></html>'')\<rparr>)
       [(''a.com'', [''http://a.com/1'', ''http://a.com/2'']),
        (''b.com'', [''http://b.com/1'', ''http://b.com/2''])] []
       (stub_args\<lparr>parallel := Some 3\<rparr>) 0 None empty_world"
proof -
  have m: "fetches (snd (projr (multi_threaded_processing
       (stub_env\<lparr>fetch_url := (\<lambda>url. Some ''<html><body>page</body></html>'')\<rparr>)
       [(''a.com'', [''http://a.com/1'', ''http://a.com/2'']),
        (''b.com'', [''http://b.com/1'', ''http://b.com/2''])]
       (stub_args\<lparr>parallel := Some 3\<rparr>) 0 None empty_world)))
     = [[''http://a.com/2'', ''http://a.com/1'', ''http://b.com/2''], [''http://b.com/1'']]"
    by code_simp
  have s: "fetches (snd (projr (single_threaded_processing
       (stub_env\<lparr>fetch_url := (\<lambda>url. Some ''<html><body>page</body></html>'')\<rparr>)
       [(''a.com'', [''http://a.com/1'', ''http://a.com/2'']),
        (''b.com'', [''http://b.com/1'', ''http://b.com/2''])] []
       (stub_args\<lparr>parallel := Some 3\<rparr>) 0 None empty_world)))
     = [[''http://a.com/2''], [''http://a.com/1''], [''http://b.com/2''], [''http://b.com/1'']]"
    by code_simp
  from m s show ?thesis by auto
qed

subsection \<open>The error lists of the two executors\<close>

text \<open>
  Claim C3 fails on the code. Six domains with one URL each, four threads and a stub
  fetcher that fails on every URL: the sequential executor returns the six URLs, the
  concurrent executor only the two that were left for its sequential fallback, whose
  result replaces the errors of the batch before it.
\<close>

theorem executors_error_lists_differ:
  "single_threaded_processing stub_env
     [(''a.com'', [''http://a.com/1'']), (''b.com'', [''http://b.com/1'']),
      (''c.com'', [''http://c.com/1'']), (''d.com'', [''http://d.com/1'']),
      (''e.com'', [''http://e.com/1'']), (''f.com'', [''http://f.com/1''])] []
     (stub_args\<lparr>parallel := Some 4\<rparr>) 0 None empty_world
   = Inr (([''http://a.com/1'', ''http://b.com/1'', ''http://c.com/1'', ''http://d.com/1'',
            ''http://e.com/1'', ''http://f.com/1''], None),
          empty_world\<lparr>fetches := [[''http://a.com/1''], [''http://b.com/1''], [''http://c.com/1''],
                                   [''http://d.com/1''], [''http://e.com/1''], [''http://f.com/1'']],
                      draws_made := 6\<rparr>)
   \<and> multi_threaded_processing stub_env
     [(''a.com'', [''http://a.com/1'']), (''b.com'', [''http://b.com/1'']),
      (''c.com'', [''http://c.com/1'']), (''d.com'', [''http://d.com/1'']),
      (''e.com'', [''http://e.com/1'']), (''f.com'', [''http://f.com/1''])]
     (stub_args\<lparr>parallel := Some 4\<rparr>) 0 None empty_world
   = Inr (([''http://e.com/1'', ''http://f.com/1''], None),
          empty_world\<lparr>fetches := [[''http://a.com/1'', ''http://b.com/1'', ''http://c.com/1'',
                                    ''http://d.com/1''], [''http://e.com/1''], [''http://f.com/1'']],
                      draws_made := 6\<rparr>)"
  by code_simp


end
